theory Spec2Isabelle
  imports Main "HOL-Library.AList"
begin

section \<open>JavaScript strings\<close>

text \<open>
  Strings are lists of 8-bit characters. \<open>String.prototype.split\<close> with a one-character
  separator, \<open>Array.prototype.join\<close>, and \<open>String.prototype.trim\<close>, whose white space
  is, among these characters, tab, line feed, vertical tab, form feed, carriage return,
  space and the no-break space.
\<close>

fun splitOn :: "char \<Rightarrow> string \<Rightarrow> string list" where
  "splitOn c [] = [[]]"
| "splitOn c (x # xs) =
     (if x = c then [] # splitOn c xs
      else (case splitOn c xs of [] \<Rightarrow> [[x]] | y # ys \<Rightarrow> (x # y) # ys))"

fun joinWith :: "string \<Rightarrow> string list \<Rightarrow> string" where
  "joinWith sep [] = []"
| "joinWith sep [x] = x"
| "joinWith sep (x # y # ys) = x @ sep @ joinWith sep (y # ys)"

definition isWhiteSpace :: "char \<Rightarrow> bool" where
  "isWhiteSpace c \<longleftrightarrow>
     c \<in> {CHR 0x09, CHR 0x0A, CHR 0x0B, CHR 0x0C, CHR 0x0D, CHR 0x20, CHR 0xA0}"

definition trim :: "string \<Rightarrow> string" where
  "trim s = rev (dropWhile isWhiteSpace (rev (dropWhile isWhiteSpace s)))"

text \<open>The literal prefix of a pattern: the rest of the string after it, if it is there.\<close>

fun stripPrefix :: "string \<Rightarrow> string \<Rightarrow> string option" where
  "stripPrefix [] s = Some s"
| "stripPrefix (p # ps) [] = None"
| "stripPrefix (p # ps) (c # cs) = (if p = c then stripPrefix ps cs else None)"

section \<open>The path module of Node\<close>

text \<open>
  The source calls \<open>path.resolve\<close>, \<open>path.dirname\<close> and \<open>path.relative\<close>. The module
  is a parameter of the model, so that what is proved holds on every platform; its POSIX
  variant is written out below for the concrete cases.
\<close>

record pathModule =
  resolve :: "string list \<Rightarrow> string"
  dirname :: "string \<Rightarrow> string"
  relative :: "string \<Rightarrow> string \<Rightarrow> string"

text \<open>
  \<open>normalizeString\<close> of Node, on the segments between slashes: empty segments and
  \<open>.\<close> are dropped, \<open>..\<close> removes the segment before it; above the root it is dropped,
  or kept when the path is relative (\<open>allowAboveRoot\<close>). The accumulator is reversed.
\<close>

fun normalizeSegments :: "bool \<Rightarrow> string list \<Rightarrow> string list \<Rightarrow> string list" where
  "normalizeSegments allowAboveRoot acc [] = rev acc"
| "normalizeSegments allowAboveRoot acc (seg # segs) =
     (if seg = [] \<or> seg = ''.'' then normalizeSegments allowAboveRoot acc segs
      else if seg = ''..'' then
        (case acc of
           [] \<Rightarrow> normalizeSegments allowAboveRoot (if allowAboveRoot then [''..''] else []) segs
         | a # acc' \<Rightarrow>
             if a = ''..''
             then normalizeSegments allowAboveRoot (if allowAboveRoot then ''..'' # acc else acc) segs
             else normalizeSegments allowAboveRoot acc' segs)
      else normalizeSegments allowAboveRoot (seg # acc) segs)"

text \<open>
  The loop of \<open>path.resolve\<close>: the arguments from the last to the first and then the
  working directory, until the path built so far is absolute; empty arguments are skipped.
\<close>

fun resolveLoop :: "string list \<Rightarrow> string \<Rightarrow> bool \<Rightarrow> string \<times> bool" where
  "resolveLoop [] resolvedPath resolvedAbsolute = (resolvedPath, resolvedAbsolute)"
| "resolveLoop (p # ps) resolvedPath resolvedAbsolute =
     (if resolvedAbsolute then (resolvedPath, resolvedAbsolute)
      else if p = [] then resolveLoop ps resolvedPath resolvedAbsolute
      else resolveLoop ps (p @ ''/'' @ resolvedPath) (hd p = CHR ''/''))"

definition posixResolve :: "string \<Rightarrow> string list \<Rightarrow> string" where
  "posixResolve cwd args =
     (case resolveLoop (rev args @ [cwd]) [] False of
        (resolvedPath, resolvedAbsolute) \<Rightarrow>
          (let n = joinWith ''/''
                     (normalizeSegments (\<not> resolvedAbsolute) [] (splitOn CHR ''/'' resolvedPath))
           in if resolvedAbsolute then ''/'' @ n else if n \<noteq> [] then n else ''.''))"

text \<open>
  The loop of \<open>path.dirname\<close>, from index \<open>i\<close> down to 1: the index of the slash that
  ends the directory part, trailing slashes skipped.
\<close>

fun dirnameEnd :: "string \<Rightarrow> nat \<Rightarrow> bool \<Rightarrow> nat option" where
  "dirnameEnd p 0 matchedSlash = None"
| "dirnameEnd p (Suc i) matchedSlash =
     (if p ! Suc i = CHR ''/''
      then (if \<not> matchedSlash then Some (Suc i) else dirnameEnd p i matchedSlash)
      else dirnameEnd p i False)"

definition posixDirname :: "string \<Rightarrow> string" where
  "posixDirname p =
     (if p = [] then ''.''
      else (case dirnameEnd p (length p - 1) True of
              None \<Rightarrow> if hd p = CHR ''/'' then ''/'' else ''.''
            | Some e \<Rightarrow> if hd p = CHR ''/'' \<and> e = 1 then ''//'' else take e p))"

fun dropCommon :: "string list \<Rightarrow> string list \<Rightarrow> string list \<times> string list" where
  "dropCommon (x # xs) (y # ys) = (if x = y then dropCommon xs ys else (x # xs, y # ys))"
| "dropCommon xs ys = (xs, ys)"

text \<open>
  \<open>path.relative\<close> on the two resolved paths: one \<open>..\<close> for each segment of \<open>from\<close>
  below the common directory, then the segments of \<open>to\<close> below it.
\<close>

definition posixRelative :: "string \<Rightarrow> string \<Rightarrow> string \<Rightarrow> string" where
  "posixRelative cwd from to =
     (let f = posixResolve cwd [from]; t = posixResolve cwd [to] in
      if f = t then []
      else (case dropCommon (filter (\<lambda>x. x \<noteq> []) (splitOn CHR ''/'' f))
                            (filter (\<lambda>x. x \<noteq> []) (splitOn CHR ''/'' t)) of
              (fs, ts) \<Rightarrow> joinWith ''/'' (replicate (length fs) ''..'' @ ts)))"

definition posixPath :: "string \<Rightarrow> pathModule" where
  "posixPath cwd = \<lparr>resolve = posixResolve cwd, dirname = posixDirname,
     relative = posixRelative cwd\<rparr>"

section \<open>Data model\<close>

text \<open>
  The raw source map payload (\<open>RawSourceMap\<close> of the \<open>source-map\<close> package) as
  \<open>JSON.parse\<close> delivers it. An optional field that is absent (or \<open>null\<close>) is
  \<open>None\<close>; a field that is present with the empty string is \<open>Some []\<close>. The
  payload's \<open>file\<close> field is \<open>fileField\<close>.
\<close>

record rawSourceMap =
  sources :: "string list"
  sourceRoot :: "string option"
  fileField :: "string option"
  sourcesContent :: "string option list option"
  mappings :: string

text \<open>
  \<open>SourceMapItem\<close> (sourceMapItem.ts): the two constructor parameters that are kept as
  private fields, and the two public fields the constructor computes. The decoder
  (\<open>SourceMapConsumer\<close>) is a function of the raw map and is passed to the query
  operations below.
\<close>

record sourceMapItem =
  rawSourceMap :: rawSourceMap
  sourceMapFile :: string
  sourceFiles :: "string list"
  generatedFile :: string

text \<open>
  What the program takes from outside: the path module, the protocol that \<open>Url.parse\<close>
  finds in a string (\<open>None\<close> when the parser throws, \<open>Some None\<close> when the parsed URL
  has no protocol), the file system behind
  \<open>readFile\<close> of promisedFs (\<open>None\<close> when the read is rejected), \<open>JSON.parse\<close> to a raw
  source map (\<open>None\<close> when it throws), the base64 decoding of \<open>Buffer\<close>, and the decoder
  of the \<open>source-map\<close> package: whether \<open>new SourceMapConsumer\<close> accepts the raw map,
  and its two queries (\<open>None\<close> when the query throws or, for \<open>generatedPositionFor\<close>,
  finds no mapping).
\<close>

record smPosition =
  sm_source :: "string option"
  sm_line :: int
  sm_column :: int

record host =
  path :: pathModule
  urlProtocol :: "string \<Rightarrow> string option option"
  readFile :: "string \<Rightarrow> string option"
  parseJSON :: "string \<Rightarrow> rawSourceMap option"
  base64 :: "string \<Rightarrow> string"
  consumerAccepts :: "rawSourceMap \<Rightarrow> bool"
  consumerOriginalPositionFor :: "rawSourceMap \<Rightarrow> smPosition \<Rightarrow> smPosition option"
  consumerGeneratedPositionFor :: "rawSourceMap \<Rightarrow> smPosition \<Rightarrow> smPosition option"

datatype error =
  IllegalArgument
| InvalidUrl
| CantFetchUrl
| CantRetrieve
| CantReadDataUri
| CantReadMapFile
| FailedToCreate
| FailedGeneratedPosition
| FailedOriginalPosition

section \<open>FilePosition\<close>

record filePosition =
  fp_file :: string
  fp_line :: int
  fp_column :: int
  fp_contents :: "string option"

text \<open>
  Modelled from the spec: \<open>FilePosition.toSmPosition\<close> of filePosition.ts, which is not
  among the sources. The spec's \<open>toDecoderQuery\<close>: the file, the line made 1-based, and
  the column as it is.
\<close>

definition toSmPosition :: "filePosition \<Rightarrow> smPosition" where
  "toSmPosition p = \<lparr>sm_source = Some (fp_file p), sm_line = fp_line p + 1,
     sm_column = fp_column p\<rparr>"

text \<open>
  Modelled from the spec: \<open>FilePosition.fromSmPosition\<close> of filePosition.ts, which is
  not among the sources. The spec's \<open>fromDecodedPosition\<close>: the file is the decoder's
  source, or the fallback file when the decoder yields none; the line is made 0-based; a
  position built this way carries no contents.
\<close>

definition fromSmPosition :: "smPosition \<Rightarrow> string \<Rightarrow> filePosition" where
  "fromSmPosition sm fallbackFile =
     \<lparr>fp_file = (case sm_source sm of Some f \<Rightarrow> f | None \<Rightarrow> fallbackFile),
      fp_line = sm_line sm - 1, fp_column = sm_column sm, fp_contents = None\<rparr>"

text \<open>
  Modelled from the spec: \<open>FilePosition.getActivePosition\<close> of filePosition.ts, which is
  not among the sources: the active document's path with the cursor's line and column,
  and no contents.
\<close>

definition getActivePosition :: "string \<Rightarrow> int \<Rightarrow> int \<Rightarrow> filePosition" where
  "getActivePosition activeFileName cursorLine cursorColumn =
     \<lparr>fp_file = activeFileName, fp_line = cursorLine, fp_column = cursorColumn,
      fp_contents = None\<rparr>"

section \<open>SourceMapItem\<close>

text \<open>
  The constructor. \<open>rawSourceMap.sourceRoot || ""\<close> and \<open>rawSourceMap.file ? ... : ...\<close>
  test a string for truthiness: an absent field and the empty string are both falsy.
  The constructor throws (\<open>None\<close>) when the decoder rejects the raw map.
\<close>

definition newSourceMapItem :: "host \<Rightarrow> rawSourceMap \<Rightarrow> string \<Rightarrow> sourceMapItem option" where
  "newSourceMapItem h raw mapFile =
     (if consumerAccepts h raw then
        Some \<lparr>rawSourceMap = raw, sourceMapFile = mapFile,
          sourceFiles =
            map (\<lambda>source. resolve (path h)
                   [dirname (path h) mapFile,
                    (case sourceRoot raw of Some r \<Rightarrow> r | None \<Rightarrow> []), source])
              (sources raw),
          generatedFile =
            (case fileField raw of
               Some f \<Rightarrow> if f \<noteq> [] then resolve (path h) [dirname (path h) mapFile, f]
                         else mapFile
             | None \<Rightarrow> mapFile)\<rparr>
      else None)"

definition fromString :: "host \<Rightarrow> string \<Rightarrow> string \<Rightarrow> error + sourceMapItem" where
  "fromString h data mapFile =
     (case parseJSON h data of
        None \<Rightarrow> Inl FailedToCreate
      | Some raw \<Rightarrow>
          (case newSourceMapItem h raw mapFile of
             None \<Rightarrow> Inl FailedToCreate
           | Some item \<Rightarrow> Inr item))"

definition fromFile :: "host \<Rightarrow> string \<Rightarrow> error + sourceMapItem" where
  "fromFile h mapFile =
     (case readFile h mapFile of
        None \<Rightarrow> Inl CantReadMapFile
      | Some fileContents \<Rightarrow>
          (case fromString h fileContents mapFile of
             Inl e \<Rightarrow> Inl CantReadMapFile
           | Inr item \<Rightarrow> Inr item))"

text \<open>\<open>replace(/\r?\n/g, '')\<close>: every line feed goes, with the carriage return before it.\<close>

fun removeLineBreaks :: "string \<Rightarrow> string" where
  "removeLineBreaks [] = []"
| "removeLineBreaks [c] = (if c = CHR 0x0A then [] else [c])"
| "removeLineBreaks (c # d # cs) =
     (if c = CHR 0x0A then removeLineBreaks (d # cs)
      else if c = CHR 0x0D \<and> d = CHR 0x0A then removeLineBreaks cs
      else c # removeLineBreaks (d # cs))"

text \<open>
  \<open>fromDataUrl\<close>: the part after the first comma; without a comma it is \<open>undefined\<close> and
  \<open>new Buffer\<close> throws.
\<close>

definition fromDataUrl :: "host \<Rightarrow> string \<Rightarrow> string \<Rightarrow> error + sourceMapItem" where
  "fromDataUrl h sourceMapUrl mapFile =
     (case splitOn CHR '','' (removeLineBreaks sourceMapUrl) of
        _ # data # _ \<Rightarrow>
          (case fromString h (base64 h data) mapFile of
             Inl e \<Rightarrow> Inl CantReadDataUri
           | Inr item \<Rightarrow> Inr item)
      | _ \<Rightarrow> Inl CantReadDataUri)"

definition isCurrentDocumentGenerated :: "sourceMapItem \<Rightarrow> string \<Rightarrow> bool" where
  "isCurrentDocumentGenerated item activeFileName \<longleftrightarrow> generatedFile item = activeFileName"

definition generatedPositionFor :: "host \<Rightarrow> sourceMapItem \<Rightarrow> filePosition \<Rightarrow> error + filePosition" where
  "generatedPositionFor h item position =
     (let absSourceRoot =
            resolve (path h)
              [dirname (path h) (sourceMapFile item),
               (case sourceRoot (rawSourceMap item) of Some r \<Rightarrow> r | None \<Rightarrow> [])];
          source = relative (path h) absSourceRoot (fp_file position)
      in case consumerGeneratedPositionFor h (rawSourceMap item)
                ((toSmPosition position)\<lparr>sm_source := Some source\<rparr>) of
           None \<Rightarrow> Inl FailedGeneratedPosition
         | Some smPosition \<Rightarrow>
             Inr (fromSmPosition (smPosition\<lparr>sm_source := Some (generatedFile item)\<rparr>) []))"

text \<open>
  \<open>indexOf\<close>, with \<open>None\<close> for -1, and an array read, which is \<open>undefined\<close> out of range.
\<close>

fun indexOf :: "'a list \<Rightarrow> 'a \<Rightarrow> nat option" where
  "indexOf [] x = None"
| "indexOf (y # ys) x = (if y = x then Some 0 else map_option Suc (indexOf ys x))"

definition embeddedContents :: "rawSourceMap \<Rightarrow> string \<Rightarrow> string option" where
  "embeddedContents raw source =
     (case sourcesContent raw of
        None \<Rightarrow> None
      | Some contents \<Rightarrow>
          (case indexOf (sources raw) source of
             None \<Rightarrow> None
           | Some mapSourceIndex \<Rightarrow>
               if mapSourceIndex < length contents then
                 (case contents ! mapSourceIndex of
                    Some text \<Rightarrow> if text \<noteq> [] then Some text else None
                  | None \<Rightarrow> None)
               else None))"

text \<open>
  \<open>originalPositionFor\<close>: a decoder answer without a source makes \<open>path.resolve\<close>
  throw; the contents are attached when \<open>sourcesContent[mapSourceIndex]\<close> is truthy.
\<close>

definition originalPositionFor :: "host \<Rightarrow> sourceMapItem \<Rightarrow> filePosition \<Rightarrow> error + filePosition" where
  "originalPositionFor h item position =
     (case consumerOriginalPositionFor h (rawSourceMap item) (toSmPosition position) of
        None \<Rightarrow> Inl FailedOriginalPosition
      | Some smPosition \<Rightarrow>
          (case sm_source smPosition of
             None \<Rightarrow> Inl FailedOriginalPosition
           | Some decoded \<Rightarrow>
               (let source = resolve (path h) [dirname (path h) (sourceMapFile item), decoded];
                    result = fromSmPosition (smPosition\<lparr>sm_source := Some source\<rparr>) []
                in Inr (case embeddedContents (rawSourceMap item) decoded of
                          Some text \<Rightarrow> result\<lparr>fp_contents := Some text\<rparr>
                        | None \<Rightarrow> result))))"

section \<open>SourceMapStore\<close>

text \<open>
  The three tables of \<open>SourceMapStore\<close> (sourceMapStore.ts) are JavaScript objects used
  as dictionaries with string keys; they are association lists here, in insertion order,
  which is the order \<open>Object.keys\<close> enumerates. Keys are file paths, never the name of a
  property inherited from \<open>Object.prototype\<close>.

  A \<open>FileSystemWatcher\<close> of the host is a number; \<open>hostWatchers\<close> logs every watcher
  \<open>createFileSystemWatcher\<close> has handed out together with the path its two callbacks
  pass to \<open>removeItem\<close>, and \<open>disposedWatchers\<close> the watchers whose \<open>dispose\<close>
  has been called.
\<close>

type_synonym fileSystemWatcher = nat

record sourceMapStore =
  cache :: "(string \<times> sourceMapItem) list"
  reverseLookupTable :: "(string \<times> string) list"
  watchers :: "(string \<times> fileSystemWatcher) list"
  hostWatchers :: "(fileSystemWatcher \<times> string) list"
  disposedWatchers :: "fileSystemWatcher list"

definition emptyStore :: sourceMapStore where
  "emptyStore = \<lparr>cache = [], reverseLookupTable = [], watchers = [],
     hostWatchers = [], disposedWatchers = []\<rparr>"

text \<open>
  \<open>addItem\<close> and \<open>removeItem\<close> are wrapped by the \<open>safeMethod\<close> decorator, which
  catches what the body throws. Neither body has a failing branch once the item exists
  and the host creates the watcher, so the wrapper is the identity in this model.
\<close>

definition addItem :: "sourceMapItem \<Rightarrow> sourceMapStore \<Rightarrow> sourceMapStore" where
  "addItem item s =
     (let g = generatedFile item; w = length (hostWatchers s) in
      s\<lparr>cache := AList.update g item (cache s),
        watchers := AList.update g w (watchers s),
        hostWatchers := hostWatchers s @ [(w, g)],
        reverseLookupTable :=
          fold (\<lambda>sourceFile t. AList.update sourceFile g t) (sourceFiles item)
            (reverseLookupTable s)\<rparr>)"

definition removeWatcher :: "string \<Rightarrow> sourceMapStore \<Rightarrow> sourceMapStore" where
  "removeWatcher generatedPath s =
     (case map_of (watchers s) generatedPath of
        Some w \<Rightarrow> s\<lparr>disposedWatchers := w # disposedWatchers s,
                    watchers := AList.delete generatedPath (watchers s)\<rparr>
      | None \<Rightarrow> s)"

definition removeCached :: "string \<Rightarrow> sourceMapStore \<Rightarrow> sourceMapStore" where
  "removeCached generatedPath s =
     (case map_of (cache s) generatedPath of
        Some item \<Rightarrow> s\<lparr>reverseLookupTable :=
                         fold AList.delete (sourceFiles item) (reverseLookupTable s),
                       cache := AList.delete generatedPath (cache s)\<rparr>
      | None \<Rightarrow> s)"

text \<open>The two \<open>if\<close> statements of \<open>removeItem\<close>, in the order of the source.\<close>

definition removeItem :: "string \<Rightarrow> sourceMapStore \<Rightarrow> sourceMapStore" where
  "removeItem generatedPath s = removeCached generatedPath (removeWatcher generatedPath s)"

text \<open>
  \<open>reverseLookup\<close>: the table entry is a string, tested for truthiness (the empty string
  is falsy); the result is \<open>cache[...]\<close>, which is \<open>undefined\<close> when the entry is stale.
  \<open>null\<close> and \<open>undefined\<close> are both \<open>None\<close>.
\<close>

definition reverseLookup :: "sourceMapStore \<Rightarrow> string \<Rightarrow> sourceMapItem option" where
  "reverseLookup s sourceFileName =
     (case map_of (reverseLookupTable s) sourceFileName of
        Some g \<Rightarrow> if g \<noteq> [] then map_of (cache s) g else None
      | None \<Rightarrow> None)"

text \<open>\<open>dispose\<close>: \<open>Object.keys(this.cache)\<close> is taken once, before the loop.\<close>

definition dispose :: "sourceMapStore \<Rightarrow> sourceMapStore" where
  "dispose s = fold removeItem (map fst (cache s)) s"

text \<open>
  The first statement of \<open>getForCurrentDocument\<close>:
  \<open>this.cache[fileName] || this.reverseLookup(fileName)\<close>. \<open>None\<close> is the miss, after
  which the document is fetched.
\<close>

definition lookupDocument :: "sourceMapStore \<Rightarrow> string \<Rightarrow> sourceMapItem option" where
  "lookupDocument s fileName =
     (case map_of (cache s) fileName of
        Some item \<Rightarrow> Some item
      | None \<Rightarrow> reverseLookup s fileName)"

text \<open>A change or delete event delivered to a watcher that has not been disposed.\<close>

definition fireWatcher :: "fileSystemWatcher \<Rightarrow> sourceMapStore \<Rightarrow> sourceMapStore" where
  "fireWatcher w s =
     (case map_of (hostWatchers s) w of
        Some generatedPath \<Rightarrow>
          if w \<in> set (disposedWatchers s) then s else removeItem generatedPath s
      | None \<Rightarrow> s)"

section \<open>The document of the host editor\<close>

text \<open>
  A \<open>TextDocument\<close>: its path, its lines without their line breaks, and the line break
  \<open>getText\<close> joins them with (a line feed, or carriage return and line feed).
\<close>

record textDocument =
  fileName :: string
  docLines :: "string list"
  eol :: string

definition lineCount :: "textDocument \<Rightarrow> nat" where
  "lineCount document = length (docLines document)"

record position =
  p_line :: nat
  p_character :: nat

record range =
  r_start :: position
  r_end :: position

text \<open>
  The constructors of \<open>Position\<close> and \<open>Range\<close> in the host's API: a negative line or
  character is an illegal argument; a range keeps its two ends in order.
\<close>

definition newPosition :: "int \<Rightarrow> int \<Rightarrow> error + position" where
  "newPosition l c =
     (if l < 0 then Inl IllegalArgument
      else if c < 0 then Inl IllegalArgument
      else Inr \<lparr>p_line = nat l, p_character = nat c\<rparr>)"

definition isBefore :: "position \<Rightarrow> position \<Rightarrow> bool" where
  "isBefore a b \<longleftrightarrow>
     p_line a < p_line b \<or> (p_line a = p_line b \<and> p_character a < p_character b)"

definition newRange :: "int \<Rightarrow> int \<Rightarrow> int \<Rightarrow> int \<Rightarrow> error + range" where
  "newRange startLine startColumn endLine endColumn =
     (case newPosition startLine startColumn of
        Inl e \<Rightarrow> Inl e
      | Inr start \<Rightarrow>
          (case newPosition endLine endColumn of
             Inl e \<Rightarrow> Inl e
           | Inr endPos \<Rightarrow>
               if isBefore endPos start then Inr \<lparr>r_start = endPos, r_end = start\<rparr>
               else Inr \<lparr>r_start = start, r_end = endPos\<rparr>))"

text \<open>
  \<open>getText(range)\<close>: the range is first adjusted to the document (a line past the end
  becomes the end of the last line, a character past the end of its line the end of that
  line), then the text between its ends is taken, the lines joined by the line break.
\<close>

definition validatePosition :: "textDocument \<Rightarrow> position \<Rightarrow> position" where
  "validatePosition document p =
     (if lineCount document \<le> p_line p then
        \<lparr>p_line = lineCount document - 1,
         p_character = length (docLines document ! (lineCount document - 1))\<rparr>
      else
        \<lparr>p_line = p_line p,
         p_character = min (p_character p) (length (docLines document ! p_line p))\<rparr>)"

definition getText :: "textDocument \<Rightarrow> range \<Rightarrow> string" where
  "getText document r =
     (let s = validatePosition document (r_start r);
          e = validatePosition document (r_end r)
      in if s = e then []
         else if p_line s = p_line e then
           take (p_character e - p_character s)
             (drop (p_character s) (docLines document ! p_line s))
         else
           joinWith (eol document)
             (drop (p_character s) (docLines document ! p_line s) #
              map (\<lambda>i. docLines document ! i) [Suc (p_line s) ..< p_line e] @
              [take (p_character e) (docLines document ! p_line e)]))"

section \<open>SourceMapFetcher\<close>

text \<open>
  \<open>SOURCE_MAPPING_MATCHER\<close>, the pattern \<open>^//[#@] ?sourceMappingURL=(.+)$\<close>: two
  slashes, one of \<open>#\<close> and \<open>@\<close>, at most one space, the literal, and the group, which
  is the rest of the string: at least one character, none of them a line terminator.
  The result is the group of the match.
\<close>

definition SOURCE_MAPPING_MATCHER :: "string \<Rightarrow> string option" where
  "SOURCE_MAPPING_MATCHER s =
     (case stripPrefix ''//'' s of
        None \<Rightarrow> None
      | Some r1 \<Rightarrow>
          (case r1 of
             [] \<Rightarrow> None
           | c # r2 \<Rightarrow>
               if c = CHR ''#'' \<or> c = CHR ''@'' then
                 (case stripPrefix ''sourceMappingURL=''
                         (case r2 of [] \<Rightarrow> [] | d # r3 \<Rightarrow> if d = CHR '' '' then r3 else r2) of
                    None \<Rightarrow> None
                  | Some v \<Rightarrow>
                      if v \<noteq> [] \<and> CHR 0x0A \<notin> set v \<and> CHR 0x0D \<notin> set v then Some v
                      else None)
               else None))"

definition tryExtractUrl :: "string \<Rightarrow> string" where
  "tryExtractUrl l =
     (case SOURCE_MAPPING_MATCHER (trim l) of
        Some v \<Rightarrow> trim v
      | None \<Rightarrow> [])"

text \<open>
  \<open>isDataUri\<close>: \<open>Url.parse(url).protocol === 'data:'\<close>. The call throws when the
  parser does.
\<close>

definition isDataUri :: "host \<Rightarrow> string \<Rightarrow> error + bool" where
  "isDataUri h url =
     (case urlProtocol h url of
        None \<Rightarrow> Inl InvalidUrl
      | Some protocol \<Rightarrow> Inr (protocol = Some ''data:''))"

record sourceMapFetchResult =
  mapUrl :: string
  fileUrl :: string

text \<open>
  The callback of \<open>reduceRight\<close>, \<open>result || this.tryExtractUrl(line)\<close>; \<open>reduceRight\<close>
  itself is \<open>foldr\<close>, which reaches the last line first.
\<close>

definition scanLine :: "string \<Rightarrow> string \<Rightarrow> string" where
  "scanLine l result = (if result \<noteq> [] then result else tryExtractUrl l)"

text \<open>
  \<open>SourceMapFetcher.fetch\<close>. Nothing in it is caught: the range that the host rejects,
  the missing directive and the URL that the parser rejects all end the call.
\<close>

definition fetcherFetch :: "host \<Rightarrow> textDocument \<Rightarrow> error + sourceMapFetchResult" where
  "fetcherFetch h document =
     (case newRange (int (lineCount document) - 10) 0 (int (lineCount document) + 1) 0 of
        Inl e \<Rightarrow> Inl e
      | Inr lastTenLines \<Rightarrow>
          (let fetchedMapUrl =
                 foldr scanLine (splitOn CHR 0x0A (getText document lastTenLines)) []
           in if fetchedMapUrl = [] then Inl CantFetchUrl
              else (case isDataUri h fetchedMapUrl of
                      Inl e \<Rightarrow> Inl e
                    | Inr dataUri \<Rightarrow>
                        Inr \<lparr>mapUrl =
                               (if dataUri then fetchedMapUrl
                                else resolve (path h)
                                       [dirname (path h) (fileName document), fetchedMapUrl]),
                             fileUrl = fileName document\<rparr>)))"

text \<open>
  The last ten lines of a document, and what the host guarantees of a document: it has a
  line, no line contains a line break, and the line break is one of the two.
\<close>

definition scannedWindow :: "textDocument \<Rightarrow> string list" where
  "scannedWindow document = drop (lineCount document - 10) (docLines document)"

definition wellFormed :: "textDocument \<Rightarrow> bool" where
  "wellFormed document \<longleftrightarrow>
     docLines document \<noteq> [] \<and>
     (\<forall>l \<in> set (docLines document). CHR 0x0A \<notin> set l) \<and>
     (eol document = [CHR 0x0A] \<or> eol document = [CHR 0x0D, CHR 0x0A])"

section \<open>Fetching on a miss\<close>

text \<open>
  \<open>SourceMapStore.fetch\<close>: whatever fails inside is replaced by the one error of this
  stage.
\<close>

definition storeFetch :: "host \<Rightarrow> textDocument \<Rightarrow> error + sourceMapItem" where
  "storeFetch h currentDocument =
     (case fetcherFetch h currentDocument of
        Inl e \<Rightarrow> Inl CantRetrieve
      | Inr r \<Rightarrow>
          (case isDataUri h (mapUrl r) of
             Inl e \<Rightarrow> Inl CantRetrieve
           | Inr dataUri \<Rightarrow>
               (case (if dataUri then fromDataUrl h (mapUrl r) (fileUrl r)
                      else fromFile h (mapUrl r)) of
                  Inl e \<Rightarrow> Inl CantRetrieve
                | Inr item \<Rightarrow> Inr item)))"

text \<open>
  \<open>getForCurrentDocument\<close>, for the active document: the result and the store after the
  call. The call is modelled without another navigation or a watcher event between the
  fetch and \<open>addItem\<close>.
\<close>

definition getForCurrentDocument ::
  "host \<Rightarrow> textDocument \<Rightarrow> sourceMapStore \<Rightarrow> (error + sourceMapItem) \<times> sourceMapStore" where
  "getForCurrentDocument h currentDocument s =
     (case lookupDocument s (fileName currentDocument) of
        Some result \<Rightarrow> (Inr result, s)
      | None \<Rightarrow>
          (case storeFetch h currentDocument of
             Inl e \<Rightarrow> (Inl e, s)
           | Inr item \<Rightarrow> (Inr item, addItem item s)))"

section \<open>Navigation\<close>

text \<open>
  \<open>navigate\<close> up to the destination it hands to \<open>navigateToDestination\<close>: the map for
  the active document, the active position, and the translation in the direction that
  \<open>isCurrentDocumentGenerated\<close> decides.
\<close>

datatype direction = GeneratedToOriginal | OriginalToGenerated

definition navigateDirection :: "sourceMapItem \<Rightarrow> textDocument \<Rightarrow> direction" where
  "navigateDirection sm activeDocument =
     (if isCurrentDocumentGenerated sm (fileName activeDocument) then GeneratedToOriginal
      else OriginalToGenerated)"

definition navigate ::
  "host \<Rightarrow> textDocument \<Rightarrow> int \<Rightarrow> int \<Rightarrow> sourceMapStore \<Rightarrow> (error + filePosition) \<times> sourceMapStore" where
  "navigate h activeDocument cursorLine cursorColumn s =
     (case getForCurrentDocument h activeDocument s of
        (Inl e, s') \<Rightarrow> (Inl e, s')
      | (Inr sm, s') \<Rightarrow>
          (let activePosition =
                 getActivePosition (fileName activeDocument) cursorLine cursorColumn
           in if isCurrentDocumentGenerated sm (fileName activeDocument)
              then (originalPositionFor h sm activePosition, s')
              else (generatedPositionFor h sm activePosition, s')))"

section \<open>Sequences of store operations\<close>

datatype storeOp = AddItem sourceMapItem | RemoveItem string

fun applyOp :: "storeOp \<Rightarrow> sourceMapStore \<Rightarrow> sourceMapStore" where
  "applyOp (AddItem item) s = addItem item s"
| "applyOp (RemoveItem generatedPath) s = removeItem generatedPath s"

definition runOps :: "storeOp list \<Rightarrow> sourceMapStore" where
  "runOps ops = fold applyOp ops emptyStore"

text \<open>
  An item shares no source file with the items that the store caches under other keys;
  and, along a sequence of operations from a store, every item is added at a moment when
  it shares none.
\<close>

definition sharesNoSource :: "sourceMapItem \<Rightarrow> sourceMapStore \<Rightarrow> bool" where
  "sharesNoSource new s \<longleftrightarrow>
     (\<forall>(g, item) \<in> set (cache s).
        g = generatedFile new \<or>
        (\<forall>sf \<in> set (sourceFiles item). sf \<notin> set (sourceFiles new)))"

fun addsApart :: "storeOp list \<Rightarrow> sourceMapStore \<Rightarrow> bool" where
  "addsApart [] s = True"
| "addsApart (AddItem item # ops) s = (sharesNoSource item s \<and> addsApart ops (addItem item s))"
| "addsApart (RemoveItem generatedPath # ops) s = addsApart ops (removeItem generatedPath s)"

text \<open>
  What holds of the watchers in every store that the operations build: the host has
  numbered its watchers in the order it created them; a watcher in the table was created
  for the key it is stored under, has not been disposed, and is stored under that key
  only; every cached key has a watcher and every watcher a cached key.
\<close>

definition watchersOk :: "sourceMapStore \<Rightarrow> bool" where
  "watchersOk s \<longleftrightarrow>
     map fst (hostWatchers s) = [0 ..< length (hostWatchers s)] \<and>
     (\<forall>w \<in> set (disposedWatchers s). w < length (hostWatchers s)) \<and>
     (\<forall>g w. map_of (watchers s) g = Some w \<longrightarrow>
        map_of (hostWatchers s) w = Some g \<and> w \<notin> set (disposedWatchers s)) \<and>
     (\<forall>g. map_of (cache s) g = None \<longleftrightarrow> map_of (watchers s) g = None)"

text \<open>
  A cached item is stored under its own generated file; and each source file of a cached
  item leads back, through the reverse table, to the key of the item.
\<close>

definition cacheKeyed :: "sourceMapStore \<Rightarrow> bool" where
  "cacheKeyed s \<longleftrightarrow>
     distinct (map fst (cache s)) \<and>
     (\<forall>g item. map_of (cache s) g = Some item \<longrightarrow> generatedFile item = g)"

definition reverseOk :: "sourceMapStore \<Rightarrow> bool" where
  "reverseOk s \<longleftrightarrow>
     (\<forall>g item. map_of (cache s) g = Some item \<longrightarrow>
        (\<forall>sf \<in> set (sourceFiles item). map_of (reverseLookupTable s) sf = Some g))"

section \<open>Concrete maps, items and documents\<close>

definition exRawA :: rawSourceMap where
  "exRawA = \<lparr>sources = [''a.ts''], sourceRoot = Some ''../src'', fileField = Some ''a.js'',
     sourcesContent = Some [Some ''let a = 1;''], mappings = ''AAAA''\<rparr>"

definition exItemA :: sourceMapItem where
  "exItemA = \<lparr>rawSourceMap = exRawA, sourceMapFile = ''/proj/dist/a.js.map'',
     sourceFiles = [''/proj/src/a.ts''], generatedFile = ''/proj/dist/a.js''\<rparr>"

text \<open>A second map that lists the source file of the first.\<close>

definition exRawB :: rawSourceMap where
  "exRawB = \<lparr>sources = [''a.ts''], sourceRoot = Some ''../src'', fileField = Some ''b.js'',
     sourcesContent = None, mappings = ''AAAA''\<rparr>"

definition exItemB :: sourceMapItem where
  "exItemB = \<lparr>rawSourceMap = exRawB, sourceMapFile = ''/proj/dist/b.js.map'',
     sourceFiles = [''/proj/src/a.ts''], generatedFile = ''/proj/dist/b.js''\<rparr>"

text \<open>A bundle whose source is the generated file of the first map.\<close>

definition exRawBundle :: rawSourceMap where
  "exRawBundle = \<lparr>sources = [''a.js''], sourceRoot = None, fileField = Some ''bundle.js'',
     sourcesContent = None, mappings = ''AAAA''\<rparr>"

definition exItemBundle :: sourceMapItem where
  "exItemBundle = \<lparr>rawSourceMap = exRawBundle, sourceMapFile = ''/proj/dist/bundle.js.map'',
     sourceFiles = [''/proj/dist/a.js''], generatedFile = ''/proj/dist/bundle.js''\<rparr>"

text \<open>
  Two maps, referenced from two generated documents, that both declare \<open>out.js\<close> as
  their file and list different sources.
\<close>

definition exRawX :: rawSourceMap where
  "exRawX = \<lparr>sources = [''../src/s1.ts''], sourceRoot = None, fileField = Some ''out.js'',
     sourcesContent = None, mappings = ''AAAA''\<rparr>"

definition exRawY :: rawSourceMap where
  "exRawY = \<lparr>sources = [''../src/s2.ts''], sourceRoot = None, fileField = Some ''out.js'',
     sourcesContent = None, mappings = ''AAAA''\<rparr>"

definition exItemX :: sourceMapItem where
  "exItemX = \<lparr>rawSourceMap = exRawX, sourceMapFile = ''/proj/dist/x.js.map'',
     sourceFiles = [''/proj/src/s1.ts''], generatedFile = ''/proj/dist/out.js''\<rparr>"

definition exItemY :: sourceMapItem where
  "exItemY = \<lparr>rawSourceMap = exRawY, sourceMapFile = ''/proj/dist/y.js.map'',
     sourceFiles = [''/proj/src/s2.ts''], generatedFile = ''/proj/dist/out.js''\<rparr>"

text \<open>
  The map of the spec's example, without a \<open>file\<close> field; the same map with an empty
  \<open>file\<close> field; a map with the text of its source embedded; and the same map with the
  empty text embedded.
\<close>

definition exRawApp :: rawSourceMap where
  "exRawApp = \<lparr>sources = [''a.ts''], sourceRoot = Some ''../src'', fileField = None,
     sourcesContent = None, mappings = ''AAAA''\<rparr>"

definition exItemApp :: sourceMapItem where
  "exItemApp = \<lparr>rawSourceMap = exRawApp, sourceMapFile = ''/proj/dist/app.js.map'',
     sourceFiles = [''/proj/src/a.ts''], generatedFile = ''/proj/dist/app.js.map''\<rparr>"

definition exRawEmptyFile :: rawSourceMap where
  "exRawEmptyFile = \<lparr>sources = [''a.ts''], sourceRoot = Some ''../src'', fileField = Some [],
     sourcesContent = None, mappings = ''AAAA''\<rparr>"

definition exRawInline :: rawSourceMap where
  "exRawInline = \<lparr>sources = [''../src/a.ts''], sourceRoot = None, fileField = Some ''a.js'',
     sourcesContent = Some [Some ''let a = 1;''], mappings = ''AAAA''\<rparr>"

definition exItemInline :: sourceMapItem where
  "exItemInline = \<lparr>rawSourceMap = exRawInline, sourceMapFile = ''/proj/dist/a.js.map'',
     sourceFiles = [''/proj/src/a.ts''], generatedFile = ''/proj/dist/a.js''\<rparr>"

definition exRawEmptyText :: rawSourceMap where
  "exRawEmptyText = \<lparr>sources = [''../src/a.ts''], sourceRoot = None, fileField = Some ''a.js'',
     sourcesContent = Some [Some []], mappings = ''AAAA''\<rparr>"

definition exItemEmptyText :: sourceMapItem where
  "exItemEmptyText = \<lparr>rawSourceMap = exRawEmptyText, sourceMapFile = ''/proj/dist/a.js.map'',
     sourceFiles = [''/proj/src/a.ts''], generatedFile = ''/proj/dist/a.js''\<rparr>"

text \<open>
  The protocol of a string for the concrete cases: \<open>data:\<close> when the trimmed string
  starts with these letters in either case, none otherwise; no string is rejected.
\<close>

definition exProtocol :: "string \<Rightarrow> string option option" where
  "exProtocol url =
     (case trim url of
        c1 # c2 # c3 # c4 # c5 # _ \<Rightarrow>
          if (c1 = CHR ''d'' \<or> c1 = CHR ''D'') \<and> (c2 = CHR ''a'' \<or> c2 = CHR ''A'') \<and>
             (c3 = CHR ''t'' \<or> c3 = CHR ''T'') \<and> (c4 = CHR ''a'' \<or> c4 = CHR ''A'') \<and>
             c5 = CHR '':''
          then Some (Some ''data:'') else Some None
      | _ \<Rightarrow> Some None)"

text \<open>
  A host for the concrete cases: POSIX paths, that protocol, a file system with the four
  map files, a
  parser that knows their contents, and a decoder that accepts every map, answers every
  query for an original position with the first declared source (behind the source root,
  as the decoder of the package returns it) at the queried line and column, and every
  query for a generated position of a declared source with the queried line and column.
\<close>

definition exHost :: host where
  "exHost = \<lparr>path = posixPath ''/'',
     urlProtocol = exProtocol,
     readFile = map_of [(''/proj/dist/a.js.map'', ''map A''), (''/proj/dist/b.js.map'', ''map B''),
                        (''/proj/dist/x.js.map'', ''map X''), (''/proj/dist/y.js.map'', ''map Y'')],
     parseJSON = map_of [(''map A'', exRawA), (''map B'', exRawB),
                         (''map X'', exRawX), (''map Y'', exRawY)],
     base64 = (\<lambda>data. data),
     consumerAccepts = (\<lambda>raw. True),
     consumerOriginalPositionFor =
       (\<lambda>raw q. Some \<lparr>sm_source =
                         (case sources raw of
                            [] \<Rightarrow> None
                          | x # xs \<Rightarrow>
                              Some (case sourceRoot raw of Some r \<Rightarrow> r @ ''/'' @ x | None \<Rightarrow> x)),
                       sm_line = sm_line q, sm_column = sm_column q\<rparr>),
     consumerGeneratedPositionFor =
       (\<lambda>raw q. case sm_source q of
                   None \<Rightarrow> None
                 | Some x \<Rightarrow> if x \<in> set (sources raw) then Some q else None)\<rparr>"

definition generatedDocument :: "string \<Rightarrow> string \<Rightarrow> textDocument" where
  "generatedDocument name directive =
     \<lparr>fileName = name, docLines = replicate 9 ''var x = 1;'' @ [directive], eol = [CHR 0x0A]\<rparr>"

text \<open>
  Documents: the generated files of the maps above, each with its directive on the last
  of ten lines; a generated file of three lines; a document of twelve lines with a
  directive on its first line, outside the last ten, and two more inside them; a document
  whose last line has the directive without \<open>#\<close> or \<open>@\<close>; and an original source.
\<close>

definition exDocA :: textDocument where
  "exDocA = generatedDocument ''/proj/dist/a.js'' ''//# sourceMappingURL=a.js.map''"

definition exDocX :: textDocument where
  "exDocX = generatedDocument ''/proj/dist/x.js'' ''//# sourceMappingURL=x.js.map''"

definition exDocY :: textDocument where
  "exDocY = generatedDocument ''/proj/dist/y.js'' ''//# sourceMappingURL=y.js.map''"

definition exShortDoc :: textDocument where
  "exShortDoc = \<lparr>fileName = ''/proj/dist/a.js'',
     docLines = [''var a = 1;'', ''var b = 2;'', ''//# sourceMappingURL=a.js.map''],
     eol = [CHR 0x0A]\<rparr>"

definition exDecoyDoc :: textDocument where
  "exDecoyDoc = \<lparr>fileName = ''/proj/dist/a.js'',
     docLines = [''//# sourceMappingURL=decoy.map'', ''var y = 2;''] @
                replicate 7 ''var x = 1;'' @
                [''//@ sourceMappingURL=first.map'', ''  //#sourceMappingURL= a.js.map  '',
                 ''var z = 3;''],
     eol = [CHR 0x0D, CHR 0x0A]\<rparr>"

definition exNoHashDoc :: textDocument where
  "exNoHashDoc = generatedDocument ''/proj/dist/a.js'' ''//sourceMappingURL=a.js.map''"

definition exSourceDoc :: textDocument where
  "exSourceDoc = generatedDocument ''/proj/src/a.ts'' ''let a = 1;''"

text \<open>
  A host whose URL parser rejects one string, and a document whose directive names it.
\<close>

definition exStrictHost :: host where
  "exStrictHost =
     exHost\<lparr>urlProtocol :=
       (\<lambda>url. if url = ''http://[::1/x.map'' then None else exProtocol url)\<rparr>"

definition exBadUrlDoc :: textDocument where
  "exBadUrlDoc =
     generatedDocument ''/proj/dist/a.js'' ''//# sourceMappingURL=http://[::1/x.map''"

section \<open>Properties of the store\<close>

lemma map_of_fold_update:
  "map_of (fold (\<lambda>k t. AList.update k v t) ks al) k =
     (if k \<in> set ks then Some v else map_of al k)"
  by (induction ks arbitrary: al) (auto simp: update_conv')

lemma map_of_fold_delete:
  "map_of (fold AList.delete ks al) k = (if k \<in> set ks then None else map_of al k)"
  by (induction ks arbitrary: al) (auto simp: delete_conv')

text \<open>
  C9. For every path that is a key of neither the cache nor the watchers table,
  \<open>removeItem\<close> returns the store it was given: nothing fails and the three tables (and
  the host's watchers) are unchanged.
\<close>

theorem removeItem_absent_noop:
  assumes "map_of (cache s) generatedPath = None"
    and "map_of (watchers s) generatedPath = None"
  shows "removeItem generatedPath s = s"
  using assms by (simp add: removeItem_def removeWatcher_def removeCached_def)

lemma ex_items_constructed:
  "newSourceMapItem exHost exRawA ''/proj/dist/a.js.map'' = Some exItemA"
  "newSourceMapItem exHost exRawB ''/proj/dist/b.js.map'' = Some exItemB"
  "newSourceMapItem exHost exRawBundle ''/proj/dist/bundle.js.map'' = Some exItemBundle"
  "newSourceMapItem exHost exRawX ''/proj/dist/x.js.map'' = Some exItemX"
  "newSourceMapItem exHost exRawY ''/proj/dist/y.js.map'' = Some exItemY"
  by code_simp+

lemma cache_addItem:
  "map_of (cache (addItem item s)) k =
     (if k = generatedFile item then Some item else map_of (cache s) k)"
  by (simp add: addItem_def Let_def update_conv')

lemma watchers_addItem:
  "map_of (watchers (addItem item s)) k =
     (if k = generatedFile item then Some (length (hostWatchers s)) else map_of (watchers s) k)"
  by (simp add: addItem_def Let_def update_conv')

lemma reverse_addItem:
  "map_of (reverseLookupTable (addItem item s)) k =
     (if k \<in> set (sourceFiles item) then Some (generatedFile item)
      else map_of (reverseLookupTable s) k)"
  by (simp add: addItem_def Let_def map_of_fold_update)

lemma host_addItem:
  "hostWatchers (addItem item s) = hostWatchers s @ [(length (hostWatchers s), generatedFile item)]"
  "disposedWatchers (addItem item s) = disposedWatchers s"
  by (simp_all add: addItem_def Let_def)

lemma cache_removeItem:
  "map_of (cache (removeItem g s)) k = (if k = g then None else map_of (cache s) k)"
  by (auto simp: removeItem_def removeWatcher_def removeCached_def delete_conv'
      split: option.splits)

lemma watchers_removeItem:
  "map_of (watchers (removeItem g s)) k = (if k = g then None else map_of (watchers s) k)"
  by (auto simp: removeItem_def removeWatcher_def removeCached_def delete_conv'
      split: option.splits)

lemma reverse_removeItem:
  "map_of (reverseLookupTable (removeItem g s)) k =
     (case map_of (cache s) g of
        Some item \<Rightarrow> if k \<in> set (sourceFiles item) then None
                     else map_of (reverseLookupTable s) k
      | None \<Rightarrow> map_of (reverseLookupTable s) k)"
  by (auto simp: removeItem_def removeWatcher_def removeCached_def map_of_fold_delete
      split: option.splits)

lemma host_removeItem:
  "hostWatchers (removeItem g s) = hostWatchers s"
  "disposedWatchers (removeItem g s) =
     (case map_of (watchers s) g of Some w \<Rightarrow> w # disposedWatchers s
      | None \<Rightarrow> disposedWatchers s)"
  by (auto simp: removeItem_def removeWatcher_def removeCached_def split: option.splits)

lemma watchersOk_empty: "watchersOk emptyStore"
  by (simp add: watchersOk_def emptyStore_def)

lemma map_of_numbered:
  assumes "map fst xs = [0 ..< length xs]"
  shows "map_of (xs @ [(length xs, g)]) w =
           (if w = length xs then Some g else map_of xs w)"
proof (cases "w = length xs")
  case True
  have "length xs \<notin> fst ` set xs"
  proof
    assume "length xs \<in> fst ` set xs"
    then have "length xs \<in> set (map fst xs)" by simp
    with assms show False by simp
  qed
  then have "map_of xs (length xs) = None" by (simp add: map_of_eq_None_iff)
  with True show ?thesis by (simp add: map_add_def)
next
  case False
  then show ?thesis by (simp add: map_add_def split: option.splits)
qed

lemma watchersOk_addItem:
  assumes "watchersOk s"
  shows "watchersOk (addItem item s)"
proof -
  let ?n = "length (hostWatchers s)"
  from assms have num: "map fst (hostWatchers s) = [0 ..< ?n]"
    and disp: "\<forall>w \<in> set (disposedWatchers s). w < ?n"
    and tab: "\<forall>g w. map_of (watchers s) g = Some w \<longrightarrow>
        map_of (hostWatchers s) w = Some g \<and> w \<notin> set (disposedWatchers s)"
    and keys: "\<forall>g. map_of (cache s) g = None \<longleftrightarrow> map_of (watchers s) g = None"
    by (simp_all add: watchersOk_def)
  have lt: "w < ?n" if "map_of (hostWatchers s) w = Some g" for w g
  proof -
    from that have "w \<in> set (map fst (hostWatchers s))"
      by (metis map_of_SomeD fst_conv image_eqI set_map)
    with num show ?thesis by simp
  qed
  have tablt: "w < ?n" if "map_of (watchers s) g = Some w" for g w
    using tab lt that by blast
  have "map fst (hostWatchers (addItem item s)) = [0 ..< length (hostWatchers (addItem item s))]"
    using num by (simp add: host_addItem)
  moreover have "\<forall>w \<in> set (disposedWatchers (addItem item s)). w < length (hostWatchers (addItem item s))"
    using disp by (auto simp: host_addItem)
  moreover have "\<forall>g w. map_of (watchers (addItem item s)) g = Some w \<longrightarrow>
        map_of (hostWatchers (addItem item s)) w = Some g \<and> w \<notin> set (disposedWatchers (addItem item s))"
    using tab disp tablt
    by (auto simp: watchers_addItem host_addItem map_of_numbered [OF num]
        simp del: map_of_append dest: tablt)
  moreover have "\<forall>g. map_of (cache (addItem item s)) g = None \<longleftrightarrow> map_of (watchers (addItem item s)) g = None"
    using keys by (simp add: cache_addItem watchers_addItem)
  ultimately show ?thesis unfolding watchersOk_def by blast
qed

lemma watchersOk_removeItem:
  assumes "watchersOk s"
  shows "watchersOk (removeItem g s)"
proof -
  let ?n = "length (hostWatchers s)"
  from assms have num: "map fst (hostWatchers s) = [0 ..< ?n]"
    and disp: "\<forall>w \<in> set (disposedWatchers s). w < ?n"
    and tab: "\<forall>g w. map_of (watchers s) g = Some w \<longrightarrow>
        map_of (hostWatchers s) w = Some g \<and> w \<notin> set (disposedWatchers s)"
    and keys: "\<forall>g. map_of (cache s) g = None \<longleftrightarrow> map_of (watchers s) g = None"
    by (simp_all add: watchersOk_def)
  have lt: "w < ?n" if "map_of (hostWatchers s) w = Some g" for w g
  proof -
    from that have "w \<in> set (map fst (hostWatchers s))"
      by (metis map_of_SomeD fst_conv image_eqI set_map)
    with num show ?thesis by simp
  qed
  have "map fst (hostWatchers (removeItem g s)) = [0 ..< length (hostWatchers (removeItem g s))]"
    using num by (simp add: host_removeItem)
  moreover have "\<forall>w \<in> set (disposedWatchers (removeItem g s)). w < length (hostWatchers (removeItem g s))"
    using disp tab lt by (auto simp: host_removeItem split: option.splits)
  moreover have inj: "k = k'" if "map_of (watchers s) k = Some w" "map_of (watchers s) k' = Some w"
    for k k' w
    using tab that by (metis option.inject)
  have "\<forall>k w. map_of (watchers (removeItem g s)) k = Some w \<longrightarrow>
        map_of (hostWatchers (removeItem g s)) w = Some k \<and> w \<notin> set (disposedWatchers (removeItem g s))"
    using tab inj by (auto simp: watchers_removeItem host_removeItem split: option.splits if_splits)
  moreover have "\<forall>k. map_of (cache (removeItem g s)) k = None \<longleftrightarrow> map_of (watchers (removeItem g s)) k = None"
    using keys by (simp add: cache_removeItem watchers_removeItem)
  ultimately show ?thesis unfolding watchersOk_def by blast
qed

lemma runOps_snoc: "runOps (ops @ [x]) = applyOp x (runOps ops)"
  by (simp add: runOps_def)

lemma watchersOk_runOps: "watchersOk (runOps ops)"
proof (induction ops rule: rev_induct)
  case Nil
  show ?case by (simp add: runOps_def watchersOk_empty)
next
  case (snoc x ops)
  then show ?case
    by (cases x) (simp_all add: runOps_snoc watchersOk_addItem watchersOk_removeItem)
qed

theorem removeItem_absent_noop_witness:
  "map_of (cache (addItem exItemA emptyStore)) ''/proj/dist/b.js'' = None \<and>
   map_of (watchers (addItem exItemA emptyStore)) ''/proj/dist/b.js'' = None \<and>
   removeItem ''/proj/dist/b.js'' (addItem exItemA emptyStore) = addItem exItemA emptyStore"
proof -
  have c: "map_of (cache (addItem exItemA emptyStore)) ''/proj/dist/b.js'' = None"
    by (simp add: cache_addItem exItemA_def emptyStore_def)
  have w: "map_of (watchers (addItem exItemA emptyStore)) ''/proj/dist/b.js'' = None"
    by (simp add: watchers_addItem exItemA_def emptyStore_def)
  from c w removeItem_absent_noop [OF c w] show ?thesis by simp
qed

lemma cacheKeyed_addItem:
  assumes "cacheKeyed s"
  shows "cacheKeyed (addItem item s)"
proof -
  have "cache (addItem item s) = AList.update (generatedFile item) item (cache s)"
    by (simp add: addItem_def Let_def)
  with assms have "distinct (map fst (cache (addItem item s)))"
    by (simp add: cacheKeyed_def distinct_update)
  with assms show ?thesis by (simp add: cacheKeyed_def cache_addItem)
qed

lemma cacheKeyed_removeItem:
  assumes "cacheKeyed s"
  shows "cacheKeyed (removeItem g s)"
proof -
  from assms have "distinct (map fst (cache (removeItem g s)))"
    by (auto simp: cacheKeyed_def removeItem_def removeWatcher_def removeCached_def
        distinct_delete split: option.splits)
  with assms show ?thesis by (simp add: cacheKeyed_def cache_removeItem)
qed

lemma cacheKeyed_runOps: "cacheKeyed (runOps ops)"
proof (induction ops rule: rev_induct)
  case Nil
  show ?case by (simp add: runOps_def cacheKeyed_def emptyStore_def)
next
  case (snoc x ops)
  then show ?case
    by (cases x) (simp_all add: runOps_snoc cacheKeyed_addItem cacheKeyed_removeItem)
qed

lemma reverseOk_addItem:
  assumes "reverseOk s" and "sharesNoSource new s"
  shows "reverseOk (addItem new s)"
  unfolding reverseOk_def
proof (intro allI impI ballI)
  fix g item sf
  assume c: "map_of (cache (addItem new s)) g = Some item"
    and sf: "sf \<in> set (sourceFiles item)"
  show "map_of (reverseLookupTable (addItem new s)) sf = Some g"
  proof (cases "g = generatedFile new")
    case True
    with c have "item = new" by (simp add: cache_addItem)
    with True sf show ?thesis by (simp add: reverse_addItem)
  next
    case False
    with c have old: "map_of (cache s) g = Some item" by (simp add: cache_addItem)
    then have "(g, item) \<in> set (cache s)" by (rule map_of_SomeD)
    with assms(2) False sf have "sf \<notin> set (sourceFiles new)"
      unfolding sharesNoSource_def by blast
    moreover from assms(1) old sf have "map_of (reverseLookupTable s) sf = Some g"
      unfolding reverseOk_def by blast
    ultimately show ?thesis by (simp add: reverse_addItem)
  qed
qed

lemma reverseOk_removeItem:
  assumes "reverseOk s"
  shows "reverseOk (removeItem k s)"
  unfolding reverseOk_def
proof (intro allI impI ballI)
  fix g item sf
  assume c: "map_of (cache (removeItem k s)) g = Some item"
    and sf: "sf \<in> set (sourceFiles item)"
  from c have ne: "g \<noteq> k" and old: "map_of (cache s) g = Some item"
    by (simp_all add: cache_removeItem split: if_splits)
  from assms old sf have r: "map_of (reverseLookupTable s) sf = Some g"
    unfolding reverseOk_def by blast
  show "map_of (reverseLookupTable (removeItem k s)) sf = Some g"
  proof (cases "map_of (cache s) k")
    case None
    with r show ?thesis by (simp add: reverse_removeItem)
  next
    case (Some gone)
    have "sf \<notin> set (sourceFiles gone)"
    proof
      assume "sf \<in> set (sourceFiles gone)"
      with assms Some have "map_of (reverseLookupTable s) sf = Some k"
        unfolding reverseOk_def by blast
      with r ne show False by simp
    qed
    with Some r show ?thesis by (simp add: reverse_removeItem)
  qed
qed

lemma reverseOk_fold:
  assumes "reverseOk s" and "addsApart ops s"
  shows "reverseOk (fold applyOp ops s)"
  using assms
proof (induction ops arbitrary: s)
  case Nil
  then show ?case by simp
next
  case (Cons x ops)
  show ?case
  proof (cases x)
    case (AddItem new)
    with Cons.prems have "reverseOk (addItem new s)" and "addsApart ops (addItem new s)"
      by (simp_all add: reverseOk_addItem)
    then have "reverseOk (fold applyOp ops (addItem new s))" by (rule Cons.IH)
    with AddItem show ?thesis by simp
  next
    case (RemoveItem k)
    with Cons.prems have "reverseOk (removeItem k s)" and "addsApart ops (removeItem k s)"
      by (simp_all add: reverseOk_removeItem)
    then have "reverseOk (fold applyOp ops (removeItem k s))" by (rule Cons.IH)
    with RemoveItem show ?thesis by simp
  qed
qed

lemma reverseOk_runOps:
  assumes "addsApart ops emptyStore"
  shows "reverseOk (runOps ops)"
proof -
  have "reverseOk emptyStore" by (simp add: reverseOk_def emptyStore_def)
  from reverseOk_fold [OF this assms] show ?thesis by (simp add: runOps_def)
qed

text \<open>
  The condition on an \<open>addItem\<close> is no more than is needed: an item that shares a
  source file with an item cached under another key takes the entry of that file away
  from it.
\<close>

lemma addItem_shared_breaks:
  assumes "cacheKeyed s" and "\<not> sharesNoSource new s"
  shows "\<not> reverseOk (addItem new s)"
proof
  assume ok: "reverseOk (addItem new s)"
  from assms(2) obtain g item sf where in_cache: "(g, item) \<in> set (cache s)"
    and ne: "g \<noteq> generatedFile new"
    and sf: "sf \<in> set (sourceFiles item)" "sf \<in> set (sourceFiles new)"
    unfolding sharesNoSource_def by blast
  from assms(1) in_cache have "map_of (cache s) g = Some item"
    by (simp add: cacheKeyed_def)
  with ne have "map_of (cache (addItem new s)) g = Some item" by (simp add: cache_addItem)
  with ok sf(1) have "map_of (reverseLookupTable (addItem new s)) sf = Some g"
    unfolding reverseOk_def by blast
  moreover from sf(2) have "map_of (reverseLookupTable (addItem new s)) sf
                              = Some (generatedFile new)"
    by (simp add: reverse_addItem)
  ultimately show False using ne by simp
qed

text \<open>
  C3 (amended). In every store that a sequence of \<open>addItem\<close> and \<open>removeItem\<close>
  operations builds from the empty store, every key of the cache has a watcher under the
  same key in \<open>watchers\<close>, one that the host created for that key and that has not been
  disposed, and the cached item is stored under its own \<open>generatedFile\<close>. When every
  item of the sequence was added at a moment at which no item cached under another key
  listed one of its source files, each source file of a cached item has an entry in
  \<open>reverseLookupTable\<close> that leads back to the key of that item. (An \<open>addItem\<close>
  that breaks the condition redirects the entry of the shared source file: the last
  writer wins.)
\<close>

theorem store_invariant:
  assumes "map_of (cache (runOps ops)) g = Some item"
  shows "(\<exists>w. map_of (watchers (runOps ops)) g = Some w \<and>
              w \<notin> set (disposedWatchers (runOps ops)) \<and>
              map_of (hostWatchers (runOps ops)) w = Some g) \<and>
         generatedFile item = g \<and>
         (addsApart ops emptyStore \<longrightarrow>
            (\<forall>sf \<in> set (sourceFiles item).
               map_of (reverseLookupTable (runOps ops)) sf = Some g))"
proof -
  have w: "watchersOk (runOps ops)" by (rule watchersOk_runOps)
  from assms have "map_of (cache (runOps ops)) g \<noteq> None" by simp
  with w obtain wt where "map_of (watchers (runOps ops)) g = Some wt"
    unfolding watchersOk_def by (metis not_None_eq)
  with w have "\<exists>w. map_of (watchers (runOps ops)) g = Some w \<and>
              w \<notin> set (disposedWatchers (runOps ops)) \<and>
              map_of (hostWatchers (runOps ops)) w = Some g"
    unfolding watchersOk_def by blast
  moreover from cacheKeyed_runOps [of ops] assms have "generatedFile item = g"
    unfolding cacheKeyed_def by blast
  moreover have "\<forall>sf \<in> set (sourceFiles item).
               map_of (reverseLookupTable (runOps ops)) sf = Some g"
    if "addsApart ops emptyStore"
    using reverseOk_runOps [OF that] assms unfolding reverseOk_def by blast
  ultimately show ?thesis by blast
qed

theorem store_invariant_counterexample:
  "map_of (cache (runOps [AddItem exItemA, AddItem exItemB])) ''/proj/dist/a.js'' = Some exItemA \<and>
   ''/proj/src/a.ts'' \<in> set (sourceFiles exItemA) \<and>
   map_of (reverseLookupTable (runOps [AddItem exItemA, AddItem exItemB])) ''/proj/src/a.ts''
     = Some ''/proj/dist/b.js'' \<and>
   map_of (cache (runOps [AddItem exItemA, AddItem exItemB, RemoveItem ''/proj/dist/b.js'']))
     ''/proj/dist/a.js'' = Some exItemA \<and>
   map_of (reverseLookupTable
       (runOps [AddItem exItemA, AddItem exItemB, RemoveItem ''/proj/dist/b.js'']))
     ''/proj/src/a.ts'' = None"
  by (simp add: runOps_def cache_addItem reverse_addItem cache_removeItem reverse_removeItem
      exItemA_def exItemB_def)

text \<open>
  The first map is added and removed before the second, which lists the same source
  file, is added.
\<close>

theorem store_invariant_witness:
  "addsApart [AddItem exItemA, RemoveItem ''/proj/dist/a.js'', AddItem exItemB] emptyStore \<and>
   ''/proj/src/a.ts'' \<in> set (sourceFiles exItemA) \<and>
   ''/proj/src/a.ts'' \<in> set (sourceFiles exItemB) \<and>
   map_of (cache (runOps [AddItem exItemA, RemoveItem ''/proj/dist/a.js'', AddItem exItemB]))
     ''/proj/dist/b.js'' = Some exItemB \<and>
   (\<exists>w. map_of (watchers (runOps [AddItem exItemA, RemoveItem ''/proj/dist/a.js'',
             AddItem exItemB])) ''/proj/dist/b.js'' = Some w \<and>
        w \<notin> set (disposedWatchers (runOps [AddItem exItemA, RemoveItem ''/proj/dist/a.js'',
             AddItem exItemB]))) \<and>
   generatedFile exItemB = ''/proj/dist/b.js'' \<and>
   map_of (reverseLookupTable (runOps [AddItem exItemA, RemoveItem ''/proj/dist/a.js'',
       AddItem exItemB])) ''/proj/src/a.ts'' = Some ''/proj/dist/b.js''"
proof -
  let ?ops = "[AddItem exItemA, RemoveItem ''/proj/dist/a.js'', AddItem exItemB]"
  have d: "addsApart ?ops emptyStore" by code_simp
  have c: "map_of (cache (runOps ?ops)) ''/proj/dist/b.js'' = Some exItemB"
    by (simp add: runOps_def cache_addItem exItemB_def)
  have a: "''/proj/src/a.ts'' \<in> set (sourceFiles exItemA)"
    by (simp add: exItemA_def)
  have b: "''/proj/src/a.ts'' \<in> set (sourceFiles exItemB)"
    by (simp add: exItemB_def)
  from store_invariant [OF c] a b c d show ?thesis by blast
qed

text \<open>
  A change or delete event on the watcher stored for a key runs \<open>removeItem\<close> for that
  key, in every store that the operations build.
\<close>

lemma fireWatcher_registered:
  assumes "map_of (watchers (runOps ops)) G = Some w"
  shows "fireWatcher w (runOps ops) = removeItem G (runOps ops)"
proof -
  have "watchersOk (runOps ops)" by (rule watchersOk_runOps)
  with assms have "map_of (hostWatchers (runOps ops)) w = Some G"
    and "w \<notin> set (disposedWatchers (runOps ops))"
    unfolding watchersOk_def by blast+
  then show ?thesis by (simp add: fireWatcher_def)
qed

text \<open>
  C4 (amended). In every store in which an item is cached for the generated file \<open>G\<close>,
  \<open>removeItem G\<close> leaves a store where \<open>G\<close> is in neither the cache nor the watchers
  table, the watcher that was stored for \<open>G\<close> has been disposed, and the reverse table
  has no entry for any source file of the item. The next lookup for \<open>G\<close> then misses,
  unless \<open>G\<close> is still listed in the reverse table as a source of another map; the next
  lookup for one of the item's source files misses, unless that file is itself the key of
  another cached map.
\<close>

theorem removeItem_evicts:
  assumes "map_of (cache s) G = Some item"
  shows "map_of (cache (removeItem G s)) G = None \<and>
         map_of (watchers (removeItem G s)) G = None \<and>
         (\<forall>w. map_of (watchers s) G = Some w \<longrightarrow> w \<in> set (disposedWatchers (removeItem G s))) \<and>
         (\<forall>sf \<in> set (sourceFiles item). map_of (reverseLookupTable (removeItem G s)) sf = None) \<and>
         (G \<in> set (sourceFiles item) \<or> map_of (reverseLookupTable s) G = None \<longrightarrow>
            lookupDocument (removeItem G s) G = None) \<and>
         (\<forall>sf \<in> set (sourceFiles item). sf = G \<or> map_of (cache s) sf = None \<longrightarrow>
            lookupDocument (removeItem G s) sf = None)"
  using assms
  by (auto simp: cache_removeItem watchers_removeItem reverse_removeItem host_removeItem
      lookupDocument_def reverseLookup_def)

theorem removeItem_evicts_witness:
  "map_of (cache (addItem exItemA emptyStore)) ''/proj/dist/a.js'' = Some exItemA \<and>
   map_of (watchers (addItem exItemA emptyStore)) ''/proj/dist/a.js'' = Some 0 \<and>
   ''/proj/src/a.ts'' \<in> set (sourceFiles exItemA) \<and>
   map_of (reverseLookupTable (addItem exItemA emptyStore)) ''/proj/dist/a.js'' = None \<and>
   map_of (cache (addItem exItemA emptyStore)) ''/proj/src/a.ts'' = None \<and>
   map_of (cache (removeItem ''/proj/dist/a.js'' (addItem exItemA emptyStore)))
     ''/proj/dist/a.js'' = None \<and>
   map_of (watchers (removeItem ''/proj/dist/a.js'' (addItem exItemA emptyStore)))
     ''/proj/dist/a.js'' = None \<and>
   0 \<in> set (disposedWatchers (removeItem ''/proj/dist/a.js'' (addItem exItemA emptyStore))) \<and>
   map_of (reverseLookupTable (removeItem ''/proj/dist/a.js'' (addItem exItemA emptyStore)))
     ''/proj/src/a.ts'' = None \<and>
   lookupDocument (removeItem ''/proj/dist/a.js'' (addItem exItemA emptyStore))
     ''/proj/dist/a.js'' = None \<and>
   lookupDocument (removeItem ''/proj/dist/a.js'' (addItem exItemA emptyStore))
     ''/proj/src/a.ts'' = None"
proof -
  let ?s = "addItem exItemA emptyStore"
  have c: "map_of (cache ?s) ''/proj/dist/a.js'' = Some exItemA"
    by (simp add: cache_addItem exItemA_def)
  have w: "map_of (watchers ?s) ''/proj/dist/a.js'' = Some 0"
    by (simp add: watchers_addItem exItemA_def emptyStore_def)
  have m: "''/proj/src/a.ts'' \<in> set (sourceFiles exItemA)"
    by (simp add: exItemA_def)
  have r: "map_of (reverseLookupTable ?s) ''/proj/dist/a.js'' = None"
    by (simp add: reverse_addItem exItemA_def emptyStore_def)
  have n: "map_of (cache ?s) ''/proj/src/a.ts'' = None"
    by (simp add: cache_addItem exItemA_def emptyStore_def)
  from removeItem_evicts [OF c] c w m r n show ?thesis by blast
qed

text \<open>
  The bundle lists the generated file of the first map as its source: after the first
  map is evicted, the lookup for its generated file is answered through the reverse
  table with the bundle's item.
\<close>

theorem removeItem_evicts_counterexample:
  "map_of (cache (runOps [AddItem exItemA, AddItem exItemBundle])) ''/proj/dist/a.js''
     = Some exItemA \<and>
   lookupDocument
     (removeItem ''/proj/dist/a.js'' (runOps [AddItem exItemA, AddItem exItemBundle]))
     ''/proj/dist/a.js'' = Some exItemBundle"
  by (simp add: runOps_def lookupDocument_def reverseLookup_def cache_addItem reverse_addItem
      cache_removeItem reverse_removeItem exItemA_def exItemBundle_def emptyStore_def)

lemma cache_fold_removeItem:
  "map_of (cache (fold removeItem ks s)) k = (if k \<in> set ks then None else map_of (cache s) k)"
  by (induction ks arbitrary: s) (auto simp: cache_removeItem)

lemma watchers_fold_removeItem:
  "map_of (watchers (fold removeItem ks s)) k =
     (if k \<in> set ks then None else map_of (watchers s) k)"
  by (induction ks arbitrary: s) (auto simp: watchers_removeItem)

lemma cache_dispose: "cache (dispose s) = []"
proof -
  have "map_of (cache (dispose s)) k = None" for k
    by (auto simp: dispose_def cache_fold_removeItem map_of_eq_None_iff)
  then have "map_of (cache (dispose s)) = Map.empty" by (rule ext)
  then show ?thesis by simp
qed

text \<open>A second \<open>dispose\<close> finds no key to remove and returns the store unchanged.\<close>

lemma dispose_idempotent: "dispose (dispose s) = dispose s"
  by (simp add: dispose_def [of "dispose s"] cache_dispose)

text \<open>
  In every store that the operations build, the keys of the watchers table are the keys
  of the cache, so \<open>dispose\<close> empties the watchers table too.
\<close>

lemma watchers_dispose: "watchers (dispose (runOps ops)) = []"
proof -
  have ok: "watchersOk (runOps ops)" by (rule watchersOk_runOps)
  have "map_of (watchers (dispose (runOps ops))) k = None" for k
  proof (cases "k \<in> set (map fst (cache (runOps ops)))")
    case True
    then show ?thesis by (simp add: dispose_def watchers_fold_removeItem)
  next
    case False
    then have "map_of (cache (runOps ops)) k = None" by (simp add: map_of_eq_None_iff)
    with ok have "map_of (watchers (runOps ops)) k = None" unfolding watchersOk_def by blast
    with False show ?thesis by (simp add: dispose_def watchers_fold_removeItem)
  qed
  then have "map_of (watchers (dispose (runOps ops))) = Map.empty" by (rule ext)
  then show ?thesis by simp
qed

text \<open>
  C8. Two generated documents reference maps that both declare \<open>out.js\<close> as their file.
  Navigating from the first and then from the second are two misses; the second
  \<open>addItem\<close> replaces the cached item and the watcher of \<open>out.js\<close> without removing the
  first item. \<open>dispose\<close> then empties the cache and the watchers table, but the reverse
  table keeps the entry of the first map's source file, and the first watcher (number 0)
  is never disposed.
\<close>

theorem dispose_leaves_reverse_entry:
  "getForCurrentDocument exHost exDocX emptyStore = (Inr exItemX, addItem exItemX emptyStore) \<and>
   getForCurrentDocument exHost exDocY (addItem exItemX emptyStore)
     = (Inr exItemY, addItem exItemY (addItem exItemX emptyStore)) \<and>
   dispose (addItem exItemY (addItem exItemX emptyStore))
     = \<lparr>cache = [],
        reverseLookupTable = [(''/proj/src/s1.ts'', ''/proj/dist/out.js'')],
        watchers = [],
        hostWatchers = [(0, ''/proj/dist/out.js''), (1, ''/proj/dist/out.js'')],
        disposedWatchers = [1]\<rparr>"
  by code_simp

lemma ex_items_constructed_more:
  "newSourceMapItem exHost exRawApp ''/proj/dist/app.js.map'' = Some exItemApp"
  "newSourceMapItem exHost exRawInline ''/proj/dist/a.js.map'' = Some exItemInline"
  "newSourceMapItem exHost exRawEmptyText ''/proj/dist/a.js.map'' = Some exItemEmptyText"
  by code_simp+


text \<open>
  C1 (amended). For every raw source map that the decoder accepts and every map-file
  path, the constructor resolves each declared source path, in order, to
  \<open>resolve(dirname(mapFile), sourceRoot-or-empty-string, declaredSourcePath)\<close>; it sets
  \<open>generatedFile\<close> to \<open>resolve(dirname(mapFile), map.file)\<close> when the map declares a
  non-empty \<open>file\<close> field, and to the map file's own path when the field is absent or
  empty. The item keeps the raw map and the map-file path, and the store caches the item
  as it was constructed.
\<close>

theorem newSourceMapItem_paths:
  assumes "newSourceMapItem h raw mapFile = Some item"
  shows "length (sourceFiles item) = length (sources raw) \<and>
         (\<forall>i < length (sources raw).
            sourceFiles item ! i =
              resolve (path h)
                [dirname (path h) mapFile,
                 (case sourceRoot raw of Some r \<Rightarrow> r | None \<Rightarrow> []), sources raw ! i]) \<and>
         (\<forall>f. fileField raw = Some f \<and> f \<noteq> [] \<longrightarrow>
            generatedFile item = resolve (path h) [dirname (path h) mapFile, f]) \<and>
         (fileField raw = None \<or> fileField raw = Some [] \<longrightarrow> generatedFile item = mapFile) \<and>
         rawSourceMap item = raw \<and> sourceMapFile item = mapFile \<and>
         map_of (cache (addItem item s)) (generatedFile item) = Some item"
  using assms
  by (auto simp: newSourceMapItem_def cache_addItem split: if_splits)

theorem newSourceMapItem_paths_witness:
  "newSourceMapItem exHost exRawApp ''/proj/dist/app.js.map'' = Some exItemApp \<and>
   sources exRawApp = [''a.ts''] \<and> sourceRoot exRawApp = Some ''../src'' \<and>
   fileField exRawApp = None \<and>
   sourceFiles exItemApp ! 0 = ''/proj/src/a.ts'' \<and>
   resolve (path exHost) [dirname (path exHost) ''/proj/dist/app.js.map'', ''../src'', ''a.ts'']
     = ''/proj/src/a.ts'' \<and>
   generatedFile exItemApp = ''/proj/dist/app.js.map''"
proof -
  have h: "newSourceMapItem exHost exRawApp ''/proj/dist/app.js.map'' = Some exItemApp"
    by code_simp
  have r: "resolve (path exHost) [dirname (path exHost) ''/proj/dist/app.js.map'', ''../src'', ''a.ts'']
     = ''/proj/src/a.ts''"
    by code_simp
  from newSourceMapItem_paths [OF h, of emptyStore]
  have "sourceFiles exItemApp ! 0 =
          resolve (path exHost)
            [dirname (path exHost) ''/proj/dist/app.js.map'', ''../src'', ''a.ts'']"
    and "generatedFile exItemApp = ''/proj/dist/app.js.map''"
    by (simp_all add: exRawApp_def)
  with h r show ?thesis by (simp add: exRawApp_def)
qed

text \<open>
  A map with \<open>"file": ""\<close> declares the field, and the constructor takes the map file's
  own path, not \<open>resolve(dirname(mapFile), "")\<close>, which is the directory.
\<close>

theorem newSourceMapItem_paths_counterexample:
  "fileField exRawEmptyFile = Some [] \<and>
   map_option generatedFile (newSourceMapItem exHost exRawEmptyFile ''/proj/dist/app.js.map'')
     = Some ''/proj/dist/app.js.map'' \<and>
   resolve (path exHost) [dirname (path exHost) ''/proj/dist/app.js.map'', []] = ''/proj/dist''"
  by code_simp

lemma indexOf_Some_iff:
  "indexOf xs x = Some i \<longleftrightarrow> i < length xs \<and> xs ! i = x \<and> (\<forall>j < i. xs ! j \<noteq> x)"
proof (induction xs arbitrary: i)
  case Nil
  show ?case by simp
next
  case (Cons y ys)
  show ?case
  proof (cases "y = x")
    case True
    then show ?thesis by (cases i) auto
  next
    case False
    show ?thesis
    proof (cases i)
      case 0
      with False show ?thesis by simp
    next
      case (Suc k)
      have "(\<forall>j < Suc k. (y # ys) ! j \<noteq> x) \<longleftrightarrow> (\<forall>j < k. ys ! j \<noteq> x)"
        using False by (auto simp: less_Suc_eq_0_disj)
      with False Suc Cons.IH [of k] show ?thesis by auto
    qed
  qed
qed

lemma embeddedContents_Some_iff:
  "embeddedContents raw source = Some t \<longleftrightarrow>
     t \<noteq> [] \<and>
     (\<exists>contents i. sourcesContent raw = Some contents \<and>
        i < length (sources raw) \<and> sources raw ! i = source \<and>
        (\<forall>j < i. sources raw ! j \<noteq> source) \<and>
        i < length contents \<and> contents ! i = Some t)"
proof
  assume "embeddedContents raw source = Some t"
  then show "t \<noteq> [] \<and>
     (\<exists>contents i. sourcesContent raw = Some contents \<and>
        i < length (sources raw) \<and> sources raw ! i = source \<and>
        (\<forall>j < i. sources raw ! j \<noteq> source) \<and>
        i < length contents \<and> contents ! i = Some t)"
    by (auto simp: embeddedContents_def indexOf_Some_iff split: option.splits if_splits)
next
  assume r: "t \<noteq> [] \<and>
     (\<exists>contents i. sourcesContent raw = Some contents \<and>
        i < length (sources raw) \<and> sources raw ! i = source \<and>
        (\<forall>j < i. sources raw ! j \<noteq> source) \<and>
        i < length contents \<and> contents ! i = Some t)"
  then obtain contents i where c: "sourcesContent raw = Some contents"
    and i: "i < length (sources raw) \<and> sources raw ! i = source \<and>
        (\<forall>j < i. sources raw ! j \<noteq> source)"
    and t: "i < length contents" "contents ! i = Some t" "t \<noteq> []"
    by blast
  from i have "indexOf (sources raw) source = Some i" by (simp add: indexOf_Some_iff)
  with c t show "embeddedContents raw source = Some t"
    by (simp add: embeddedContents_def)
qed

text \<open>
  C7 (amended). For every successful \<open>originalPositionFor\<close> query, the decoder has
  returned a source path, and the returned position's file is
  \<open>resolve(dirname(mapFile), decodedSourcePath)\<close> for that path. The result carries
  contents exactly when the raw map's \<open>sourcesContent\<close> list holds a non-empty text at the
  index at which that exact source path first occurs in the map's \<open>sources\<close> list, and
  then the contents are that text; otherwise (no \<open>sourcesContent\<close>, the path not among
  the sources, no entry at the index, or the empty text there) contents is absent.
\<close>

theorem originalPositionFor_result:
  assumes "originalPositionFor h item position = Inr result"
  shows "\<exists>smPosition decoded.
           consumerOriginalPositionFor h (rawSourceMap item) (toSmPosition position)
             = Some smPosition \<and>
           sm_source smPosition = Some decoded \<and>
           fp_file result =
             resolve (path h) [dirname (path h) (sourceMapFile item), decoded] \<and>
           (\<forall>t. fp_contents result = Some t \<longleftrightarrow>
              t \<noteq> [] \<and>
              (\<exists>contents i. sourcesContent (rawSourceMap item) = Some contents \<and>
                 i < length (sources (rawSourceMap item)) \<and>
                 sources (rawSourceMap item) ! i = decoded \<and>
                 (\<forall>j < i. sources (rawSourceMap item) ! j \<noteq> decoded) \<and>
                 i < length contents \<and> contents ! i = Some t))"
proof -
  from assms obtain smPosition decoded where
    q: "consumerOriginalPositionFor h (rawSourceMap item) (toSmPosition position)
          = Some smPosition"
    and d: "sm_source smPosition = Some decoded"
    by (auto simp: originalPositionFor_def split: option.splits)
  let ?r = "fromSmPosition
     (smPosition\<lparr>sm_source :=
        Some (resolve (path h) [dirname (path h) (sourceMapFile item), decoded])\<rparr>) []"
  from assms q d have res: "result =
      (case embeddedContents (rawSourceMap item) decoded of
         Some text \<Rightarrow> ?r\<lparr>fp_contents := Some text\<rparr>
       | None \<Rightarrow> ?r)"
    by (simp add: originalPositionFor_def Let_def)
  have f: "fp_file result = resolve (path h) [dirname (path h) (sourceMapFile item), decoded]"
    by (simp add: res fromSmPosition_def split: option.splits)
  have c: "fp_contents result = embeddedContents (rawSourceMap item) decoded"
    by (simp add: res fromSmPosition_def split: option.splits)
  from q d f show ?thesis
    unfolding c embeddedContents_Some_iff by blast
qed

theorem originalPositionFor_result_witness:
  "originalPositionFor exHost exItemInline (getActivePosition ''/proj/dist/a.js'' 4 2)
     = Inr \<lparr>fp_file = ''/proj/src/a.ts'', fp_line = 4, fp_column = 2,
            fp_contents = Some ''let a = 1;''\<rparr> \<and>
   resolve (path exHost) [dirname (path exHost) (sourceMapFile exItemInline), ''../src/a.ts'']
     = ''/proj/src/a.ts'' \<and>
   sourcesContent (rawSourceMap exItemInline) = Some [Some ''let a = 1;''] \<and>
   sources (rawSourceMap exItemInline) ! 0 = ''../src/a.ts''"
proof -
  have e: "originalPositionFor exHost exItemInline (getActivePosition ''/proj/dist/a.js'' 4 2)
     = Inr \<lparr>fp_file = ''/proj/src/a.ts'', fp_line = 4, fp_column = 2,
            fp_contents = Some ''let a = 1;''\<rparr>"
    by code_simp
  have r: "resolve (path exHost) [dirname (path exHost) (sourceMapFile exItemInline), ''../src/a.ts'']
     = ''/proj/src/a.ts''"
    by code_simp
  from originalPositionFor_result [OF e] e r show ?thesis
    by (simp add: exItemInline_def exRawInline_def)
qed

text \<open>
  The map carries the empty text for its only source; the decoder returns that source,
  and the result carries no contents.
\<close>

theorem originalPositionFor_result_counterexample:
  "sources (rawSourceMap exItemEmptyText) = [''../src/a.ts''] \<and>
   sourcesContent (rawSourceMap exItemEmptyText) = Some [Some []] \<and>
   consumerOriginalPositionFor exHost (rawSourceMap exItemEmptyText)
       (toSmPosition (getActivePosition ''/proj/dist/a.js'' 4 2))
     = Some \<lparr>sm_source = Some ''../src/a.ts'', sm_line = 5, sm_column = 2\<rparr> \<and>
   originalPositionFor exHost exItemEmptyText (getActivePosition ''/proj/dist/a.js'' 4 2)
     = Inr \<lparr>fp_file = ''/proj/src/a.ts'', fp_line = 4, fp_column = 2, fp_contents = None\<rparr>"
  by code_simp

lemma generatedPositionFor_file:
  assumes "generatedPositionFor h item position = Inr result"
  shows "fp_file result = generatedFile item"
  using assms
  by (auto simp: generatedPositionFor_def Let_def fromSmPosition_def split: option.splits)

text \<open>
  C6. For every item and every active document, \<open>isCurrentDocumentGenerated\<close> is true
  exactly when the active document's path is equal, as a string, to the item's
  \<open>generatedFile\<close>. With the item that \<open>getForCurrentDocument\<close> returns for the active
  document, \<open>navigate\<close> translates the active position with \<open>originalPositionFor\<close>
  (generated to original) when it is true, and with \<open>generatedPositionFor\<close> (original
  to generated, so that the destination is the generated file) otherwise.
\<close>

theorem navigate_direction:
  assumes "getForCurrentDocument h activeDocument s = (Inr sm, s')"
  shows "(isCurrentDocumentGenerated item (fileName activeDocument) \<longleftrightarrow>
            generatedFile item = fileName activeDocument) \<and>
         (generatedFile sm = fileName activeDocument \<longrightarrow>
            navigateDirection sm activeDocument = GeneratedToOriginal \<and>
            navigate h activeDocument cursorLine cursorColumn s =
              (originalPositionFor h sm
                 (getActivePosition (fileName activeDocument) cursorLine cursorColumn), s')) \<and>
         (generatedFile sm \<noteq> fileName activeDocument \<longrightarrow>
            navigateDirection sm activeDocument = OriginalToGenerated \<and>
            navigate h activeDocument cursorLine cursorColumn s =
              (generatedPositionFor h sm
                 (getActivePosition (fileName activeDocument) cursorLine cursorColumn), s') \<and>
            (\<forall>destination.
               fst (navigate h activeDocument cursorLine cursorColumn s) = Inr destination \<longrightarrow>
               fp_file destination = generatedFile sm))"
  using assms
  by (auto simp: navigate_def navigateDirection_def isCurrentDocumentGenerated_def Let_def
      dest: generatedPositionFor_file)

theorem navigate_direction_witness:
  "getForCurrentDocument exHost exDocA emptyStore = (Inr exItemA, addItem exItemA emptyStore) \<and>
   generatedFile exItemA = fileName exDocA \<and>
   isCurrentDocumentGenerated exItemA (fileName exDocA) \<and>
   navigate exHost exDocA 4 2 emptyStore =
     (Inr \<lparr>fp_file = ''/proj/src/a.ts'', fp_line = 4, fp_column = 2, fp_contents = None\<rparr>,
      addItem exItemA emptyStore) \<and>
   getForCurrentDocument exHost exSourceDoc (addItem exItemA emptyStore)
     = (Inr exItemA, addItem exItemA emptyStore) \<and>
   generatedFile exItemA \<noteq> fileName exSourceDoc \<and>
   \<not> isCurrentDocumentGenerated exItemA (fileName exSourceDoc) \<and>
   navigate exHost exSourceDoc 4 2 (addItem exItemA emptyStore) =
     (Inr \<lparr>fp_file = ''/proj/dist/a.js'', fp_line = 4, fp_column = 2, fp_contents = None\<rparr>,
      addItem exItemA emptyStore)"
proof -
  have g1: "getForCurrentDocument exHost exDocA emptyStore
              = (Inr exItemA, addItem exItemA emptyStore)"
    by code_simp
  have g2: "getForCurrentDocument exHost exSourceDoc (addItem exItemA emptyStore)
              = (Inr exItemA, addItem exItemA emptyStore)"
    by code_simp
  have f1: "generatedFile exItemA = fileName exDocA" by code_simp
  have f2: "generatedFile exItemA \<noteq> fileName exSourceDoc" by code_simp
  have o: "originalPositionFor exHost exItemA (getActivePosition (fileName exDocA) 4 2)
             = Inr \<lparr>fp_file = ''/proj/src/a.ts'', fp_line = 4, fp_column = 2,
                    fp_contents = None\<rparr>"
    by code_simp
  have g: "generatedPositionFor exHost exItemA (getActivePosition (fileName exSourceDoc) 4 2)
             = Inr \<lparr>fp_file = ''/proj/dist/a.js'', fp_line = 4, fp_column = 2,
                    fp_contents = None\<rparr>"
    by code_simp
  from navigate_direction [OF g1, of exItemA 4 2] f1 o
  have n1: "isCurrentDocumentGenerated exItemA (fileName exDocA) \<and>
            navigate exHost exDocA 4 2 emptyStore =
              (Inr \<lparr>fp_file = ''/proj/src/a.ts'', fp_line = 4, fp_column = 2,
                     fp_contents = None\<rparr>, addItem exItemA emptyStore)"
    by simp
  from navigate_direction [OF g2, of exItemA 4 2] f2 g
  have n2: "\<not> isCurrentDocumentGenerated exItemA (fileName exSourceDoc) \<and>
            navigate exHost exSourceDoc 4 2 (addItem exItemA emptyStore) =
              (Inr \<lparr>fp_file = ''/proj/dist/a.js'', fp_line = 4, fp_column = 2,
                     fp_contents = None\<rparr>, addItem exItemA emptyStore)"
    by simp
  from g1 g2 f1 f2 n1 n2 show ?thesis by blast
qed

lemma splitOn_no_separator: "c \<notin> set xs \<Longrightarrow> splitOn c xs = [xs]"
  by (induction xs) auto

lemma splitOn_append:
  "c \<notin> set xs \<Longrightarrow> splitOn c (xs @ c # ys) = xs # splitOn c ys"
  by (induction xs) auto

lemma splitOn_join:
  assumes "ls \<noteq> []" and "\<forall>l \<in> set ls. c \<notin> set l" and "c \<notin> set p"
  shows "splitOn c (joinWith (p @ [c]) ls) = map (\<lambda>l. l @ p) (butlast ls) @ [last ls]"
  using assms
proof (induction ls)
  case Nil
  then show ?case by simp
next
  case (Cons x ls)
  show ?case
  proof (cases ls)
    case Nil
    with Cons.prems show ?thesis by (simp add: splitOn_no_separator)
  next
    case (Cons y ys)
    have "splitOn c (joinWith (p @ [c]) (x # y # ys)) =
            splitOn c ((x @ p) @ c # joinWith (p @ [c]) (y # ys))"
      by simp
    also have "\<dots> = (x @ p) # splitOn c (joinWith (p @ [c]) (y # ys))"
      using Cons.prems by (intro splitOn_append) simp
    finally show ?thesis
      using Cons.IH Cons.prems Cons by simp
  qed
qed

lemma trim_append_space:
  assumes "isWhiteSpace c"
  shows "trim (l @ [c]) = trim l"
proof (cases "\<forall>x \<in> set l. isWhiteSpace x")
  case True
  from True have a: "dropWhile isWhiteSpace l = []"
    by (metis dropWhile_eq_Nil_conv)
  from True assms have "\<forall>x \<in> set (l @ [c]). isWhiteSpace x" by simp
  then have b: "dropWhile isWhiteSpace (l @ [c]) = []"
    by (metis dropWhile_eq_Nil_conv)
  show ?thesis unfolding trim_def a b by simp
next
  case False
  then have "dropWhile isWhiteSpace (l @ [c]) = dropWhile isWhiteSpace l @ [c]"
    by (auto simp: dropWhile_append1)
  with assms show ?thesis by (simp add: trim_def)
qed

lemma tryExtractUrl_carriage_return: "tryExtractUrl (l @ [CHR 0x0D]) = tryExtractUrl l"
  by (simp add: tryExtractUrl_def trim_append_space isWhiteSpace_def)

lemma foldr_scanLine_cong:
  assumes "map tryExtractUrl ls = map tryExtractUrl ms"
  shows "foldr scanLine ls acc = foldr scanLine ms acc"
  using assms
proof (induction ls arbitrary: ms)
  case Nil
  then show ?case by simp
next
  case (Cons l ls)
  then obtain m ms' where "ms = m # ms'" by (cases ms) auto
  with Cons show ?case by (simp add: scanLine_def)
qed

lemma drop_last_ten:
  assumes "10 \<le> length xs"
  shows "xs ! (length xs - 10) #
           map (\<lambda>i. xs ! i) [Suc (length xs - 10) ..< length xs - Suc 0] @
           [xs ! (length xs - Suc 0)] = drop (length xs - 10) xs"
proof -
  from assms obtain k where n: "length xs = k + 10"
    by (metis add.commute le_Suc_ex)
  have e: "k + 10 = Suc (k + 9)" by arith
  have "drop k xs = drop k (map (\<lambda>i. xs ! i) [0 ..< length xs])"
    by (simp add: map_nth)
  also have "\<dots> = map (\<lambda>i. xs ! i) [k ..< k + 10]"
    by (simp add: drop_map n)
  also have "[k ..< k + 10] = [k ..< k + 9] @ [k + 9]"
    unfolding e by (rule upt_Suc_append) simp
  also have "[k ..< k + 9] = k # [Suc k ..< k + 9]" by (rule upt_conv_Cons) simp
  finally have "drop k xs = xs ! k # map (\<lambda>i. xs ! i) [Suc k ..< k + 9] @ [xs ! (k + 9)]"
    by simp
  then show ?thesis by (simp add: n add.commute)
qed

lemma newRange_lastTen:
  assumes "10 \<le> lineCount document"
  shows "newRange (int (lineCount document) - 10) 0 (int (lineCount document) + 1) 0 =
           Inr \<lparr>r_start = \<lparr>p_line = lineCount document - 10, p_character = 0\<rparr>,
                r_end = \<lparr>p_line = Suc (lineCount document), p_character = 0\<rparr>\<rparr>"
proof -
  have a: "nat (int (lineCount document) - 10) = lineCount document - 10" by simp
  have b: "nat (int (lineCount document) + 1) = Suc (lineCount document)" by simp
  show ?thesis
    using assms by (simp add: newRange_def newPosition_def isBefore_def a b)
qed

lemma getText_lastTen:
  assumes "10 \<le> lineCount document"
  shows "getText document
           \<lparr>r_start = \<lparr>p_line = lineCount document - 10, p_character = 0\<rparr>,
            r_end = \<lparr>p_line = Suc (lineCount document), p_character = 0\<rparr>\<rparr>
         = joinWith (eol document) (scannedWindow document)"
proof -
  let ?n = "lineCount document"
  have lt: "\<not> ?n \<le> ?n - 10" using assms by arith
  have s: "validatePosition document \<lparr>p_line = ?n - 10, p_character = 0\<rparr>
             = \<lparr>p_line = ?n - 10, p_character = 0\<rparr>"
    using lt by (simp add: validatePosition_def)
  have e: "validatePosition document \<lparr>p_line = Suc ?n, p_character = 0\<rparr>
             = \<lparr>p_line = ?n - Suc 0,
                p_character = length (docLines document ! (?n - Suc 0))\<rparr>"
    by (simp add: validatePosition_def)
  have ne: "?n - 10 \<noteq> ?n - Suc 0" using assms by arith
  have d: "docLines document ! (?n - 10) #
             map (\<lambda>i. docLines document ! i) [Suc (?n - 10) ..< ?n - Suc 0] @
             [docLines document ! (?n - Suc 0)] = drop (?n - 10) (docLines document)"
    using assms drop_last_ten [of "docLines document"] by (simp add: lineCount_def)
  show ?thesis
    using ne by (simp add: getText_def s e Let_def scannedWindow_def d)
qed

lemma scannedWindow_length:
  "10 \<le> lineCount document \<Longrightarrow> length (scannedWindow document) = 10"
  by (simp add: scannedWindow_def lineCount_def)

text \<open>
  In a well-formed document of at least ten lines, the scan folds over the last ten
  lines.
\<close>

lemma fetched_url_window:
  assumes "10 \<le> lineCount document" and "wellFormed document"
  shows "foldr scanLine
           (splitOn CHR 0x0A
              (getText document
                 \<lparr>r_start = \<lparr>p_line = lineCount document - 10, p_character = 0\<rparr>,
                  r_end = \<lparr>p_line = Suc (lineCount document), p_character = 0\<rparr>\<rparr>)) []
         = foldr scanLine (scannedWindow document) []"
proof -
  let ?w = "scannedWindow document"
  have ne: "?w \<noteq> []" using scannedWindow_length [OF assms(1)] by auto
  have nl: "\<forall>l \<in> set ?w. CHR 0x0A \<notin> set l"
    using assms(2) by (auto simp: wellFormed_def scannedWindow_def dest: in_set_dropD)
  from assms(2) have "eol document = [] @ [CHR 0x0A] \<or> eol document = [CHR 0x0D] @ [CHR 0x0A]"
    by (simp add: wellFormed_def)
  then show ?thesis
  proof
    assume lf: "eol document = [] @ [CHR 0x0A]"
    have "splitOn CHR 0x0A (joinWith ([] @ [CHR 0x0A]) ?w) = map (\<lambda>l. l @ []) (butlast ?w) @ [last ?w]"
      using ne nl by (intro splitOn_join) simp_all
    then have "splitOn CHR 0x0A (joinWith (eol document) ?w) = ?w"
      using ne lf by simp
    then show ?thesis by (simp add: getText_lastTen [OF assms(1)])
  next
    assume crlf: "eol document = [CHR 0x0D] @ [CHR 0x0A]"
    have sp: "splitOn CHR 0x0A (joinWith ([CHR 0x0D] @ [CHR 0x0A]) ?w)
            = map (\<lambda>l. l @ [CHR 0x0D]) (butlast ?w) @ [last ?w]"
      using ne nl by (intro splitOn_join) simp_all
    have "map tryExtractUrl (map (\<lambda>l. l @ [CHR 0x0D]) (butlast ?w) @ [last ?w])
            = map tryExtractUrl (butlast ?w @ [last ?w])"
      by (simp add: tryExtractUrl_carriage_return comp_def)
    also have "\<dots> = map tryExtractUrl ?w" using ne by simp
    finally have "foldr scanLine (map (\<lambda>l. l @ [CHR 0x0D]) (butlast ?w) @ [last ?w]) []
                    = foldr scanLine ?w []"
      by (rule foldr_scanLine_cong)
    then show ?thesis
      using sp crlf by (simp add: getText_lastTen [OF assms(1)])
  qed
qed

lemma stripPrefix_Some_iff: "stripPrefix p s = Some r \<longleftrightarrow> s = p @ r"
proof (induction p arbitrary: s)
  case Nil
  show ?case by auto
next
  case (Cons a p)
  show ?case by (cases s) (auto simp: Cons.IH)
qed

text \<open>
  What the pattern accepts: two slashes, \<open>#\<close> or \<open>@\<close>, at most one space, the
  literal, and a value of at least one character without a line terminator.
\<close>

lemma SOURCE_MAPPING_MATCHER_iff:
  "SOURCE_MAPPING_MATCHER s = Some v \<longleftrightarrow>
     (\<exists>c sp. s = ''//'' @ [c] @ sp @ ''sourceMappingURL='' @ v \<and>
        (c = CHR ''#'' \<or> c = CHR ''@'') \<and> (sp = [] \<or> sp = '' '') \<and>
        v \<noteq> [] \<and> CHR 0x0A \<notin> set v \<and> CHR 0x0D \<notin> set v)"
  (is "?L \<longleftrightarrow> ?R")
proof
  assume l: ?L
  then obtain r1 where r1: "s = ''//'' @ r1"
    by (auto simp: SOURCE_MAPPING_MATCHER_def stripPrefix_Some_iff split: option.splits)
  with l obtain c r2 where r2: "r1 = c # r2" and c: "c = CHR ''#'' \<or> c = CHR ''@''"
    by (cases r1)
      (auto simp: SOURCE_MAPPING_MATCHER_def split: option.splits if_splits)
  let ?r = "case r2 of [] \<Rightarrow> [] | d # r3 \<Rightarrow> if d = CHR '' '' then r3 else r2"
  from l r1 r2 c have m: "stripPrefix ''sourceMappingURL='' ?r = Some v"
    and v: "v \<noteq> [] \<and> CHR 0x0A \<notin> set v \<and> CHR 0x0D \<notin> set v"
    by (auto simp: SOURCE_MAPPING_MATCHER_def split: option.splits if_splits)
  from m have e: "?r = ''sourceMappingURL='' @ v" by (simp only: stripPrefix_Some_iff)
  have "\<exists>sp. r2 = sp @ ''sourceMappingURL='' @ v \<and> (sp = [] \<or> sp = '' '')"
  proof (cases r2)
    case Nil
    with e show ?thesis by simp
  next
    case (Cons d r3)
    show ?thesis
    proof (cases "d = CHR '' ''")
      case True
      with e Cons have "r2 = '' '' @ ''sourceMappingURL='' @ v" by simp
      then show ?thesis by blast
    next
      case False
      with e Cons have "r2 = [] @ ''sourceMappingURL='' @ v" by simp
      then show ?thesis by blast
    qed
  qed
  with r1 r2 c v show ?R by auto
next
  assume ?R
  then obtain c sp where s: "s = ''//'' @ [c] @ sp @ ''sourceMappingURL='' @ v"
    and c: "c = CHR ''#'' \<or> c = CHR ''@''" and sp: "sp = [] \<or> sp = '' ''"
    and v: "v \<noteq> []" "CHR 0x0A \<notin> set v" "CHR 0x0D \<notin> set v"
    by blast
  have p: "stripPrefix ''sourceMappingURL='' (''sourceMappingURL='' @ v) = Some v"
    by (simp only: stripPrefix_Some_iff)
  from sp show ?L
  proof
    assume "sp = []"
    with s c v p show ?L by (auto simp: SOURCE_MAPPING_MATCHER_def)
  next
    assume "sp = '' ''"
    with s c v p show ?L by (auto simp: SOURCE_MAPPING_MATCHER_def)
  qed
qed

lemma trim_last_not_space:
  assumes "trim l \<noteq> []"
  shows "\<not> isWhiteSpace (last (trim l))"
proof -
  let ?d = "dropWhile isWhiteSpace (rev (dropWhile isWhiteSpace l))"
  from assms have ne: "?d \<noteq> []" by (simp add: trim_def)
  then have "\<not> isWhiteSpace (hd ?d)" by (rule hd_dropWhile)
  moreover have "last (trim l) = hd ?d" using ne by (simp add: trim_def last_rev)
  ultimately show ?thesis by simp
qed

lemma trim_nonempty:
  assumes "s \<noteq> []" and "\<not> isWhiteSpace (last s)"
  shows "trim s \<noteq> []"
proof -
  from assms have "last s \<in> set s" by simp
  with assms(2) have d: "dropWhile isWhiteSpace s \<noteq> []"
    by (metis dropWhile_eq_Nil_conv)
  have "last s \<in> set (dropWhile isWhiteSpace s)"
  proof -
    from d have "last (dropWhile isWhiteSpace s) = last s"
      by (metis append_Nil2 last_appendR takeWhile_dropWhile_id)
    with d show ?thesis by (metis last_in_set)
  qed
  then have "last s \<in> set (rev (dropWhile isWhiteSpace s))" by simp
  with assms(2) have "dropWhile isWhiteSpace (rev (dropWhile isWhiteSpace s)) \<noteq> []"
    by (metis dropWhile_eq_Nil_conv)
  then show ?thesis by (simp add: trim_def)
qed

text \<open>A line yields a URL exactly when, trimmed, it matches the pattern.\<close>

lemma tryExtractUrl_matches:
  "SOURCE_MAPPING_MATCHER (trim l) = Some v \<Longrightarrow> tryExtractUrl l = trim v \<and> trim v \<noteq> []"
proof -
  assume m: "SOURCE_MAPPING_MATCHER (trim l) = Some v"
  then obtain pre where t: "trim l = pre @ v" and v: "v \<noteq> []"
    unfolding SOURCE_MAPPING_MATCHER_iff by (metis append.assoc)
  from t v have "trim l \<noteq> []" by simp
  then have "\<not> isWhiteSpace (last (trim l))" by (rule trim_last_not_space)
  with t v have "\<not> isWhiteSpace (last v)" by simp
  with v have "trim v \<noteq> []" by (rule trim_nonempty)
  with m show ?thesis by (simp add: tryExtractUrl_def)
qed

lemma tryExtractUrl_no_match:
  "SOURCE_MAPPING_MATCHER (trim l) = None \<Longrightarrow> tryExtractUrl l = []"
  by (simp add: tryExtractUrl_def)

lemma foldr_scanLine_none:
  "\<forall>l \<in> set ls. tryExtractUrl l = [] \<Longrightarrow> foldr scanLine ls [] = []"
  by (induction ls) (simp_all add: scanLine_def)

lemma foldr_scanLine_last:
  assumes "i < length ls" and "tryExtractUrl (ls ! i) \<noteq> []"
    and "\<forall>j. i < j \<and> j < length ls \<longrightarrow> tryExtractUrl (ls ! j) = []"
  shows "foldr scanLine ls [] = tryExtractUrl (ls ! i)"
  using assms
proof (induction ls arbitrary: i)
  case Nil
  then show ?case by simp
next
  case (Cons l ls)
  show ?case
  proof (cases i)
    case 0
    have "\<forall>m \<in> set ls. tryExtractUrl m = []"
    proof
      fix m assume "m \<in> set ls"
      then obtain k where "k < length ls" "ls ! k = m" by (auto simp: in_set_conv_nth)
      with Cons.prems(3) [rule_format, of "Suc k"] 0 show "tryExtractUrl m = []" by simp
    qed
    then have n: "foldr scanLine ls [] = []" by (rule foldr_scanLine_none)
    have "foldr scanLine (l # ls) [] = scanLine l (foldr scanLine ls [])" by simp
    also have "\<dots> = scanLine l []" by (simp only: n)
    also have "\<dots> = tryExtractUrl l" by (simp add: scanLine_def)
    finally show ?thesis using 0 by simp
  next
    case (Suc k)
    have r: "foldr scanLine ls [] = tryExtractUrl (ls ! k)"
    proof (rule Cons.IH)
      show "k < length ls" using Cons.prems(1) Suc by simp
      show "tryExtractUrl (ls ! k) \<noteq> []" using Cons.prems(2) Suc by simp
      show "\<forall>j. k < j \<and> j < length ls \<longrightarrow> tryExtractUrl (ls ! j) = []"
        using Cons.prems(3) [rule_format, of "Suc j" for j] Suc by simp
    qed
    have ne: "tryExtractUrl (ls ! k) \<noteq> []" using Cons.prems(2) Suc by simp
    have "foldr scanLine (l # ls) [] = scanLine l (foldr scanLine ls [])" by simp
    also have "\<dots> = scanLine l (tryExtractUrl (ls ! k))" by (simp only: r)
    also have "\<dots> = tryExtractUrl (ls ! k)" using ne by (simp add: scanLine_def)
    finally show ?thesis using Suc by simp
  qed
qed

lemma fetcherFetch_short:
  assumes "lineCount document < 10"
  shows "fetcherFetch h document = Inl IllegalArgument"
  using assms by (simp add: fetcherFetch_def newRange_def newPosition_def)

lemma fetcherFetch_window:
  assumes "10 \<le> lineCount document" and "wellFormed document"
  shows "fetcherFetch h document =
           (if foldr scanLine (scannedWindow document) [] = [] then Inl CantFetchUrl
            else (case urlProtocol h (foldr scanLine (scannedWindow document) []) of
                    None \<Rightarrow> Inl InvalidUrl
                  | Some protocol \<Rightarrow>
                      Inr \<lparr>mapUrl =
                             (if protocol = Some ''data:''
                              then foldr scanLine (scannedWindow document) []
                              else resolve (path h) [dirname (path h) (fileName document),
                                     foldr scanLine (scannedWindow document) []]),
                           fileUrl = fileName document\<rparr>))"
  unfolding fetcherFetch_def newRange_lastTen [OF assms(1)]
  by (simp add: fetched_url_window [OF assms] Let_def isDataUri_def split: option.splits)

lemma storeFetch_fetcher_fails:
  "fetcherFetch h document = Inl e \<Longrightarrow> storeFetch h document = Inl CantRetrieve"
  by (simp add: storeFetch_def)

text \<open>A call that fails leaves the store as it was.\<close>

lemma getForCurrentDocument_failure_keeps_store:
  assumes "getForCurrentDocument h document s = (Inl e, s')"
  shows "s' = s"
  using assms by (auto simp: getForCurrentDocument_def split: option.splits sum.splits)

text \<open>
  C10. For every document with fewer than 10 lines, the start line of the scan range,
  \<open>lineCount - 10\<close>, is negative, the constructor of the range rejects it, and the
  fetch fails: \<open>SourceMapFetcher.fetch\<close> with the illegal argument,
  \<open>SourceMapStore.fetch\<close> with its own error, and \<open>getForCurrentDocument\<close> on a miss
  with that error and the store unchanged, whatever the lines of the document are. For a
  document of at least 10 lines the range is constructed.
\<close>

theorem fetch_short_document_fails:
  "(lineCount document < 10 \<longrightarrow>
      int (lineCount document) - 10 < 0 \<and>
      newRange (int (lineCount document) - 10) 0 (int (lineCount document) + 1) 0
        = Inl IllegalArgument \<and>
      fetcherFetch h document = Inl IllegalArgument \<and>
      storeFetch h document = Inl CantRetrieve \<and>
      (lookupDocument s (fileName document) = None \<longrightarrow>
         getForCurrentDocument h document s = (Inl CantRetrieve, s))) \<and>
   (10 \<le> lineCount document \<longrightarrow>
      (\<exists>r. newRange (int (lineCount document) - 10) 0 (int (lineCount document) + 1) 0
         = Inr r))"
proof (intro conjI impI)
  assume short: "lineCount document < 10"
  then show "int (lineCount document) - 10 < 0" by simp
  from short show "newRange (int (lineCount document) - 10) 0 (int (lineCount document) + 1) 0
        = Inl IllegalArgument"
    by (simp add: newRange_def newPosition_def)
  from short show f: "fetcherFetch h document = Inl IllegalArgument"
    by (rule fetcherFetch_short)
  then show r: "storeFetch h document = Inl CantRetrieve"
    by (rule storeFetch_fetcher_fails)
  assume "lookupDocument s (fileName document) = None"
  with r show "getForCurrentDocument h document s = (Inl CantRetrieve, s)"
    by (simp add: getForCurrentDocument_def)
next
  assume "10 \<le> lineCount document"
  then show "\<exists>r. newRange (int (lineCount document) - 10) 0 (int (lineCount document) + 1) 0
         = Inr r"
    by (simp add: newRange_lastTen)
qed

theorem fetch_short_document_fails_witness:
  "lineCount exShortDoc = 3 \<and>
   tryExtractUrl (last (docLines exShortDoc)) = ''a.js.map'' \<and>
   fetcherFetch exHost exShortDoc = Inl IllegalArgument \<and>
   storeFetch exHost exShortDoc = Inl CantRetrieve \<and>
   lookupDocument emptyStore (fileName exShortDoc) = None \<and>
   getForCurrentDocument exHost exShortDoc emptyStore = (Inl CantRetrieve, emptyStore) \<and>
   lineCount exDocA = 10 \<and>
   (\<exists>r. newRange (int (lineCount exDocA) - 10) 0 (int (lineCount exDocA) + 1) 0 = Inr r)"
proof -
  have n: "lineCount exShortDoc = 3" by code_simp
  have d: "tryExtractUrl (last (docLines exShortDoc)) = ''a.js.map''" by code_simp
  have l: "lookupDocument emptyStore (fileName exShortDoc) = None" by code_simp
  have m: "lineCount exDocA = 10" by code_simp
  from n have short: "lineCount exShortDoc < 10" by simp
  from m have long: "10 \<le> lineCount exDocA" by simp
  from fetch_short_document_fails [of exShortDoc exHost emptyStore] short l
  have "fetcherFetch exHost exShortDoc = Inl IllegalArgument \<and>
        storeFetch exHost exShortDoc = Inl CantRetrieve \<and>
        getForCurrentDocument exHost exShortDoc emptyStore = (Inl CantRetrieve, emptyStore)"
    by blast
  moreover from fetch_short_document_fails [of exDocA exHost emptyStore] long
  have "\<exists>r. newRange (int (lineCount exDocA) - 10) 0 (int (lineCount exDocA) + 1) 0 = Inr r"
    by blast
  ultimately show ?thesis using n d l m by blast
qed

text \<open>
  C2 (amended). For every well-formed document of at least 10 lines, the fetch depends
  on the last 10 lines only. When the line at position \<open>i\<close> of these ten, trimmed,
  matches \<open>//\<close>, one of \<open>#\<close> and \<open>@\<close>, at most one space,
  \<open>sourceMappingURL=\<close> and a value, and no later line of the ten matches, the fetched
  URL is the trimmed value of that line. The fetch fails when the URL parser of the host
  rejects that URL; otherwise the URL is returned as \<open>mapUrl\<close>, as it is when its
  protocol is \<open>data:\<close> and resolved against the document's directory otherwise, with
  the document's path as \<open>fileUrl\<close>. When no line of the ten matches, the fetch fails.
  A line before the last ten is never used.
\<close>

theorem fetch_last_directive_in_window:
  assumes "10 \<le> lineCount document" and "wellFormed document"
  shows "(\<forall>i v. i < 10 \<and>
            SOURCE_MAPPING_MATCHER (trim (scannedWindow document ! i)) = Some v \<and>
            (\<forall>j. i < j \<and> j < 10 \<longrightarrow>
               SOURCE_MAPPING_MATCHER (trim (scannedWindow document ! j)) = None) \<longrightarrow>
            fetcherFetch h document =
              (case urlProtocol h (trim v) of
                 None \<Rightarrow> Inl InvalidUrl
               | Some protocol \<Rightarrow>
                   Inr \<lparr>mapUrl =
                          (if protocol = Some ''data:'' then trim v
                           else resolve (path h) [dirname (path h) (fileName document), trim v]),
                        fileUrl = fileName document\<rparr>)) \<and>
         ((\<forall>l \<in> set (scannedWindow document). SOURCE_MAPPING_MATCHER (trim l) = None) \<longrightarrow>
            fetcherFetch h document = Inl CantFetchUrl) \<and>
         (\<forall>other. 10 \<le> lineCount other \<and> wellFormed other \<and>
            fileName other = fileName document \<and>
            scannedWindow other = scannedWindow document \<longrightarrow>
            fetcherFetch h other = fetcherFetch h document)"
proof (intro conjI allI impI)
  fix i v
  assume h: "i < 10 \<and>
            SOURCE_MAPPING_MATCHER (trim (scannedWindow document ! i)) = Some v \<and>
            (\<forall>j. i < j \<and> j < 10 \<longrightarrow>
               SOURCE_MAPPING_MATCHER (trim (scannedWindow document ! j)) = None)"
  let ?w = "scannedWindow document"
  have len: "length ?w = 10" by (rule scannedWindow_length [OF assms(1)])
  from h have m: "tryExtractUrl (?w ! i) = trim v" and ne: "trim v \<noteq> []"
    using tryExtractUrl_matches by blast+
  have "foldr scanLine ?w [] = tryExtractUrl (?w ! i)"
  proof (rule foldr_scanLine_last)
    show "i < length ?w" using h len by simp
    show "tryExtractUrl (?w ! i) \<noteq> []" using m ne by simp
    show "\<forall>j. i < j \<and> j < length ?w \<longrightarrow> tryExtractUrl (?w ! j) = []"
      using h len by (simp add: tryExtractUrl_no_match)
  qed
  with m have u: "foldr scanLine ?w [] = trim v" by simp
  show "fetcherFetch h document =
              (case urlProtocol h (trim v) of
                 None \<Rightarrow> Inl InvalidUrl
               | Some protocol \<Rightarrow>
                   Inr \<lparr>mapUrl =
                          (if protocol = Some ''data:'' then trim v
                           else resolve (path h) [dirname (path h) (fileName document), trim v]),
                        fileUrl = fileName document\<rparr>)"
    unfolding fetcherFetch_window [OF assms] u using ne by simp
next
  assume "\<forall>l \<in> set (scannedWindow document). SOURCE_MAPPING_MATCHER (trim l) = None"
  then have "\<forall>l \<in> set (scannedWindow document). tryExtractUrl l = []"
    by (simp add: tryExtractUrl_no_match)
  then have "foldr scanLine (scannedWindow document) [] = []" by (rule foldr_scanLine_none)
  then show "fetcherFetch h document = Inl CantFetchUrl"
    unfolding fetcherFetch_window [OF assms] by simp
next
  fix other
  assume o: "10 \<le> lineCount other \<and> wellFormed other \<and>
            fileName other = fileName document \<and>
            scannedWindow other = scannedWindow document"
  then have a: "10 \<le> lineCount other" and b: "wellFormed other"
    and e1: "fileName other = fileName document"
    and e2: "scannedWindow other = scannedWindow document"
    by simp_all
  show "fetcherFetch h other = fetcherFetch h document"
    by (simp only: fetcherFetch_window [OF a b] fetcherFetch_window [OF assms] e1 e2)
qed

theorem fetch_last_directive_in_window_witness:
  "10 \<le> lineCount exDecoyDoc \<and> wellFormed exDecoyDoc \<and>
   docLines exDecoyDoc ! 0 = ''//# sourceMappingURL=decoy.map'' \<and>
   scannedWindow exDecoyDoc ! 7 = ''//@ sourceMappingURL=first.map'' \<and>
   scannedWindow exDecoyDoc ! 8 = ''  //#sourceMappingURL= a.js.map  '' \<and>
   SOURCE_MAPPING_MATCHER (trim (scannedWindow exDecoyDoc ! 8)) = Some '' a.js.map'' \<and>
   SOURCE_MAPPING_MATCHER (trim (scannedWindow exDecoyDoc ! 9)) = None \<and>
   urlProtocol exHost (trim '' a.js.map'') = Some None \<and>
   fetcherFetch exHost exDecoyDoc =
     Inr \<lparr>mapUrl = ''/proj/dist/a.js.map'', fileUrl = ''/proj/dist/a.js''\<rparr> \<and>
   10 \<le> lineCount exBadUrlDoc \<and> wellFormed exBadUrlDoc \<and>
   SOURCE_MAPPING_MATCHER (trim (scannedWindow exBadUrlDoc ! 9)) = Some ''http://[::1/x.map'' \<and>
   urlProtocol exStrictHost (trim ''http://[::1/x.map'') = None \<and>
   fetcherFetch exStrictHost exBadUrlDoc = Inl InvalidUrl"
proof -
  have n: "10 \<le> lineCount exDecoyDoc" by code_simp
  have w: "wellFormed exDecoyDoc" by code_simp
  have d: "docLines exDecoyDoc ! 0 = ''//# sourceMappingURL=decoy.map''" by code_simp
  have l7: "scannedWindow exDecoyDoc ! 7 = ''//@ sourceMappingURL=first.map''" by code_simp
  have l8: "scannedWindow exDecoyDoc ! 8 = ''  //#sourceMappingURL= a.js.map  ''" by code_simp
  have m8: "SOURCE_MAPPING_MATCHER (trim (scannedWindow exDecoyDoc ! 8)) = Some '' a.js.map''"
    by code_simp
  have m9: "SOURCE_MAPPING_MATCHER (trim (scannedWindow exDecoyDoc ! 9)) = None" by code_simp
  have later: "\<forall>j. 8 < j \<and> j < 10 \<longrightarrow>
                 SOURCE_MAPPING_MATCHER (trim (scannedWindow exDecoyDoc ! j)) = None"
  proof (intro allI impI)
    fix j :: nat
    assume "8 < j \<and> j < 10"
    then have "j = 9" by arith
    with m9 show "SOURCE_MAPPING_MATCHER (trim (scannedWindow exDecoyDoc ! j)) = None" by simp
  qed
  have p: "urlProtocol exHost (trim '' a.js.map'') = Some None" by code_simp
  have u: "resolve (path exHost) [dirname (path exHost) (fileName exDecoyDoc),
             trim '' a.js.map''] = ''/proj/dist/a.js.map''"
    by code_simp
  have f: "fileName exDecoyDoc = ''/proj/dist/a.js''" by code_simp
  have c: "8 < (10::nat) \<and>
           SOURCE_MAPPING_MATCHER (trim (scannedWindow exDecoyDoc ! 8)) = Some '' a.js.map'' \<and>
           (\<forall>j. 8 < j \<and> j < 10 \<longrightarrow>
              SOURCE_MAPPING_MATCHER (trim (scannedWindow exDecoyDoc ! j)) = None)"
    using m8 later by simp
  have "fetcherFetch exHost exDecoyDoc =
          (case urlProtocol exHost (trim '' a.js.map'') of
             None \<Rightarrow> Inl InvalidUrl
           | Some protocol \<Rightarrow>
               Inr \<lparr>mapUrl =
                      (if protocol = Some ''data:'' then trim '' a.js.map''
                       else resolve (path exHost) [dirname (path exHost) (fileName exDecoyDoc),
                              trim '' a.js.map'']),
                    fileUrl = fileName exDecoyDoc\<rparr>)"
    by (rule fetch_last_directive_in_window
          [OF n w, of exHost, THEN conjunct1, rule_format, OF c])
  with p u f have r: "fetcherFetch exHost exDecoyDoc =
     Inr \<lparr>mapUrl = ''/proj/dist/a.js.map'', fileUrl = ''/proj/dist/a.js''\<rparr>"
    by simp
  have bn: "10 \<le> lineCount exBadUrlDoc" by code_simp
  have bw: "wellFormed exBadUrlDoc" by code_simp
  have bm: "SOURCE_MAPPING_MATCHER (trim (scannedWindow exBadUrlDoc ! 9))
              = Some ''http://[::1/x.map''"
    by code_simp
  have bp: "urlProtocol exStrictHost (trim ''http://[::1/x.map'') = None" by code_simp
  have bl: "\<forall>j. 9 < j \<and> j < 10 \<longrightarrow>
               SOURCE_MAPPING_MATCHER (trim (scannedWindow exBadUrlDoc ! j)) = None"
  proof (intro allI impI)
    fix j :: nat
    assume "9 < j \<and> j < 10"
    then have False by arith
    then show "SOURCE_MAPPING_MATCHER (trim (scannedWindow exBadUrlDoc ! j)) = None" by simp
  qed
  have bc: "9 < (10::nat) \<and>
            SOURCE_MAPPING_MATCHER (trim (scannedWindow exBadUrlDoc ! 9))
              = Some ''http://[::1/x.map'' \<and>
            (\<forall>j. 9 < j \<and> j < 10 \<longrightarrow>
               SOURCE_MAPPING_MATCHER (trim (scannedWindow exBadUrlDoc ! j)) = None)"
    using bm bl by simp
  have "fetcherFetch exStrictHost exBadUrlDoc =
          (case urlProtocol exStrictHost (trim ''http://[::1/x.map'') of
             None \<Rightarrow> Inl InvalidUrl
           | Some protocol \<Rightarrow>
               Inr \<lparr>mapUrl =
                      (if protocol = Some ''data:'' then trim ''http://[::1/x.map''
                       else resolve (path exStrictHost)
                              [dirname (path exStrictHost) (fileName exBadUrlDoc),
                               trim ''http://[::1/x.map'']),
                    fileUrl = fileName exBadUrlDoc\<rparr>)"
    by (rule fetch_last_directive_in_window
          [OF bn bw, of exStrictHost, THEN conjunct1, rule_format, OF bc])
  with bp have br: "fetcherFetch exStrictHost exBadUrlDoc = Inl InvalidUrl" by simp
  from n w d l7 l8 m8 m9 p r bn bw bm bp br show ?thesis by blast
qed

text \<open>
  A document of ten lines whose last line has the directive without \<open>#\<close> or \<open>@\<close>:
  the line does not match and the fetch finds no URL. A document of three lines whose
  last line is a directive: the fetch fails before it reads a line.
\<close>

theorem fetch_last_directive_in_window_counterexample:
  "lineCount exNoHashDoc = 10 \<and>
   last (docLines exNoHashDoc) = ''//sourceMappingURL=a.js.map'' \<and>
   tryExtractUrl (last (docLines exNoHashDoc)) = [] \<and>
   fetcherFetch exHost exNoHashDoc = Inl CantFetchUrl \<and>
   lineCount exShortDoc = 3 \<and>
   last (docLines exShortDoc) = ''//# sourceMappingURL=a.js.map'' \<and>
   tryExtractUrl (last (docLines exShortDoc)) = ''a.js.map'' \<and>
   fetcherFetch exHost exShortDoc = Inl IllegalArgument"
  by code_simp




end
